theory Spec2Isabelle
  imports Main "HOL-Library.AList"
begin

section \<open>The iCal server of main.go\<close>

text \<open>
  The server stores one calendar document per URL path under the directory
  \<^verbatim>\<open>calendars\<close>: \<^verbatim>\<open>GET\<close> reads it without authentication,
  \<^verbatim>\<open>PUT\<close> writes it after HTTP Basic authentication and an ownership check.
  The handlers of main.go are embedded as functions from a request and the storage
  tree to a response and the storage tree. The functions of Go's standard library that the
  handlers call (packages strings, path/filepath, os and net/http, Unix behaviour) are
  embedded from their documentation, each under its Go name.
\<close>

subsection \<open>Package strings\<close>

definition strings_HasSuffix :: "string \<Rightarrow> string \<Rightarrow> bool" where
  "strings_HasSuffix s suffix = (take (length suffix) (rev s) = rev suffix)"

text \<open>\<^verbatim>\<open>strings.Trim(s, cutset)\<close>: all leading and trailing characters of the cutset removed.\<close>

definition strings_Trim :: "string \<Rightarrow> string \<Rightarrow> string" where
  "strings_Trim s cutset =
     rev (dropWhile (\<lambda>c. c \<in> set cutset) (rev (dropWhile (\<lambda>c. c \<in> set cutset) s)))"

text \<open>
  \<^verbatim>\<open>strings.Split(s, sep)\<close> for a separator of one character: the pieces between the
  separators, one more piece than there are separators (so the empty string gives one
  empty piece).
\<close>

fun strings_Split :: "string \<Rightarrow> char \<Rightarrow> string list" where
  "strings_Split [] c = [[]]"
| "strings_Split (x # xs) c =
     (if x = c then [] # strings_Split xs c
      else (case strings_Split xs c of
              [] \<Rightarrow> [[x]]
            | y # ys \<Rightarrow> (x # y) # ys))"

text \<open>\<^verbatim>\<open>strings.Join(elems, "/")\<close>.\<close>

fun strings_Join :: "string list \<Rightarrow> string" where
  "strings_Join [] = []"
| "strings_Join (e # es) = e @ concat (map (\<lambda>t. CHR ''/'' # t) es)"

text \<open>
  \<^verbatim>\<open>strings.FieldsFunc(s, f)\<close>: the maximal runs of characters that do not satisfy
  \<^verbatim>\<open>f\<close>, that is, the non-empty pieces between the characters that do.
\<close>

fun split_where :: "(char \<Rightarrow> bool) \<Rightarrow> string \<Rightarrow> string list" where
  "split_where f [] = [[]]"
| "split_where f (x # xs) =
     (if f x then [] # split_where f xs
      else (case split_where f xs of
              [] \<Rightarrow> [[x]]
            | y # ys \<Rightarrow> (x # y) # ys))"

definition strings_FieldsFunc :: "string \<Rightarrow> (char \<Rightarrow> bool) \<Rightarrow> string list" where
  "strings_FieldsFunc s f = filter (\<lambda>e. e \<noteq> []) (split_where f s)"

text \<open>
  \<^verbatim>\<open>utf8.ValidString\<close>: the bytes are a sequence of well-formed UTF-8 encodings
  (no overlong forms, no surrogates, nothing above U+10FFFF).
\<close>

definition cont_byte :: "nat \<Rightarrow> bool" where
  "cont_byte b = (0x80 \<le> b \<and> b \<le> 0xBF)"

fun utf8_valid :: "nat list \<Rightarrow> bool" where
  "utf8_valid [] = True"
| "utf8_valid (a # bs) =
     (if a < 0x80 then utf8_valid bs
      else if 0xC2 \<le> a \<and> a \<le> 0xDF then
        (case bs of b # r \<Rightarrow> cont_byte b \<and> utf8_valid r | _ \<Rightarrow> False)
      else if 0xE0 \<le> a \<and> a \<le> 0xEF then
        (case bs of
           b # c # r \<Rightarrow>
             (if a = 0xE0 then 0xA0 \<le> b \<and> b \<le> 0xBF
              else if a = 0xED then 0x80 \<le> b \<and> b \<le> 0x9F
              else cont_byte b) \<and> cont_byte c \<and> utf8_valid r
         | _ \<Rightarrow> False)
      else if 0xF0 \<le> a \<and> a \<le> 0xF4 then
        (case bs of
           b # c # e # r \<Rightarrow>
             (if a = 0xF0 then 0x90 \<le> b \<and> b \<le> 0xBF
              else if a = 0xF4 then 0x80 \<le> b \<and> b \<le> 0x8F
              else cont_byte b) \<and> cont_byte c \<and> cont_byte e \<and> utf8_valid r
         | _ \<Rightarrow> False)
      else False)"

definition utf8_ValidString :: "string \<Rightarrow> bool" where
  "utf8_ValidString s = utf8_valid (map of_char s)"

subsection \<open>Packages path/filepath and path\<close>

text \<open>
  \<^verbatim>\<open>filepath.Clean\<close> works on the elements between the separators. It keeps a
  stack of the elements of the result (here with the last element first): an empty element
  and \<^verbatim>\<open>.\<close> are dropped; \<^verbatim>\<open>..\<close> removes the element before it when
  that is a real element, is dropped at the root of a rooted path, and is kept otherwise;
  every other element is pushed. The result is the elements joined by single separators,
  after the leading separator of a rooted path, and \<^verbatim>\<open>.\<close> when that is empty.
\<close>

definition clean_step :: "bool \<Rightarrow> string list \<Rightarrow> string \<Rightarrow> string list" where
  "clean_step rooted st e =
     (if e = [] \<or> e = ''.'' then st
      else if e = ''..'' then
        (case st of
           [] \<Rightarrow> if rooted then [] else [''..'']
         | t # ts \<Rightarrow> if t = ''..'' then ''..'' # st else ts)
      else e # st)"

definition clean_elems :: "string \<Rightarrow> string list" where
  "clean_elems path =
     rev (foldl (clean_step (path \<noteq> [] \<and> hd path = CHR ''/'')) [] (strings_Split path CHR ''/''))"

definition filepath_Clean :: "string \<Rightarrow> string" where
  "filepath_Clean path =
     (let out = (if path \<noteq> [] \<and> hd path = CHR ''/'' then ''/'' else []) @
                strings_Join (clean_elems path)
      in if out = [] then ''.'' else out)"

text \<open>
  \<^verbatim>\<open>filepath.Join\<close>: the elements from the first non-empty one on, joined by
  separators and cleaned; the empty string when every element is empty.
\<close>

definition filepath_Join :: "string list \<Rightarrow> string" where
  "filepath_Join elem =
     (case dropWhile (\<lambda>e. e = []) elem of
        [] \<Rightarrow> []
      | es \<Rightarrow> filepath_Clean (strings_Join es))"

text \<open>\<^verbatim>\<open>filepath.Dir\<close>: the path up to and including its last separator, cleaned.\<close>

definition filepath_Dir :: "string \<Rightarrow> string" where
  "filepath_Dir path = filepath_Clean (rev (dropWhile (\<lambda>c. c \<noteq> CHR ''/'') (rev path)))"

text \<open>\<^verbatim>\<open>path.Base\<close>: the last element of the path, trailing separators removed first.\<close>

definition path_Base :: "string \<Rightarrow> string" where
  "path_Base path =
     (if path = [] then ''.''
      else (let b = rev (takeWhile (\<lambda>c. c \<noteq> CHR ''/'')
                           (dropWhile (\<lambda>c. c = CHR ''/'') (rev path)))
            in if b = [] then ''/'' else b))"

text \<open>The file part of \<^verbatim>\<open>filepath.Split\<close>: what follows the last separator.\<close>

definition file_part :: "string \<Rightarrow> string" where
  "file_part name = rev (takeWhile (\<lambda>c. c \<noteq> CHR ''/'') (rev name))"

subsection \<open>Package os: the storage tree\<close>

text \<open>
  The file system below the working directory of the server is a tree: a regular file
  with its bytes, or a directory with its entries. A name is resolved element by element
  from the working directory; empty elements and \<^verbatim>\<open>.\<close> stand for the directory
  reached so far. An operation fails
  \<^item> for the name itself: \<^verbatim>\<open>EINVAL\<close> (a NUL byte in the name),
    \<^verbatim>\<open>ENOENT\<close> (the empty name) and \<^verbatim>\<open>ENAMETOOLONG\<close> (a name of
    \<^verbatim>\<open>PATH_MAX\<close> bytes or more, or an element of more than
    \<^verbatim>\<open>NAME_MAX\<close> bytes; the values are those of Linux and its common file
    systems);
  \<^item> for the shape of the tree: \<^verbatim>\<open>ENOENT\<close> (no such entry),
    \<^verbatim>\<open>ENOTDIR\<close> (an element on the way is a regular file) and
    \<^verbatim>\<open>EISDIR\<close> (the target of a write is a directory).

  Permissions, links and the capacity of the disk are not modelled: the server may read and
  write everything below its working directory. The handlers pass cleaned names only, in
  which \<^verbatim>\<open>..\<close> can only lead; such a name leaves the working directory, and the
  model takes the server to have no access there (\<^verbatim>\<open>EACCES\<close>). The model answers
  every name with a \<^verbatim>\<open>..\<close> element so; a \<^verbatim>\<open>..\<close> after a real
  element is not resolved, and no handler passes one. \<^verbatim>\<open>EIO\<close> is the error of
  a request body that cannot be read.
\<close>

datatype errno = ENOENT | ENOTDIR | EISDIR | EACCES | EINVAL | ENAMETOOLONG | EIO

datatype node = File string | Dir "(string \<times> node) list"

definition NAME_MAX :: nat where
  "NAME_MAX = 255"

definition PATH_MAX :: nat where
  "PATH_MAX = 4096"

text \<open>What a system call answers to a name before it looks at the tree.\<close>

definition name_error :: "string \<Rightarrow> errno option" where
  "name_error name =
     (if CHR 0x00 \<in> set name then Some EINVAL
      else if name = [] then Some ENOENT
      else if PATH_MAX \<le> length name then Some ENAMETOOLONG
      else None)"

fun lookup :: "node \<Rightarrow> string list \<Rightarrow> errno + node" where
  "lookup n [] = Inr n"
| "lookup (File c) (x # xs) = Inl ENOTDIR"
| "lookup (Dir es) (x # xs) =
     (if NAME_MAX < length x then Inl ENAMETOOLONG
      else (case map_of es x of
              None \<Rightarrow> Inl ENOENT
            | Some m \<Rightarrow> lookup m xs))"

text \<open>
  \<^verbatim>\<open>os.MkdirAll\<close> makes the missing directories from the top down, one
  \<^verbatim>\<open>mkdir\<close> for each prefix of the name, and stops at the first that fails: at a
  regular file on the way, at an element with a NUL byte, at an element or a prefix that is
  too long. The directories made before the failure stay. The result is the error, if any,
  and the tree after the call. The first argument is the length of the prefix before the
  element at hand.
\<close>

definition prefix_len :: "nat \<Rightarrow> string \<Rightarrow> nat" where
  "prefix_len k x = (if k = 0 then length x else k + 1 + length x)"

fun mkdir_all :: "nat \<Rightarrow> node \<Rightarrow> string list \<Rightarrow> errno option \<times> node" where
  "mkdir_all k (File c) xs = (Some ENOTDIR, File c)"
| "mkdir_all k (Dir es) [] = (None, Dir es)"
| "mkdir_all k (Dir es) (x # xs) =
     (if CHR 0x00 \<in> set x then (Some EINVAL, Dir es)
      else if PATH_MAX \<le> prefix_len k x \<or> NAME_MAX < length x then (Some ENAMETOOLONG, Dir es)
      else (case mkdir_all (prefix_len k x)
                   (case map_of es x of None \<Rightarrow> Dir [] | Some m \<Rightarrow> m) xs of
              (err, m') \<Rightarrow> (err, Dir (AList.update x m' es))))"

text \<open>
  \<^verbatim>\<open>os.WriteFile\<close> opens the file with \<^verbatim>\<open>O_WRONLY|O_CREATE|O_TRUNC\<close> and
  writes the data: the file is created in an existing directory or its content is replaced.
\<close>

fun write_file :: "node \<Rightarrow> string list \<Rightarrow> string \<Rightarrow> errno + node" where
  "write_file (File c) [] d = Inr (File d)"
| "write_file (Dir es) [] d = Inl EISDIR"
| "write_file (File c) (x # xs) d = Inl ENOTDIR"
| "write_file (Dir es) (x # xs) d =
     (if NAME_MAX < length x then Inl ENAMETOOLONG
      else (case map_of es x of
              None \<Rightarrow> if xs = [] then Inr (Dir (AList.update x (File d) es)) else Inl ENOENT
            | Some m \<Rightarrow>
                (case write_file m xs d of
                   Inl e \<Rightarrow> Inl e
                 | Inr m' \<Rightarrow> Inr (Dir (AList.update x m' es)))))"

definition path_elems :: "string \<Rightarrow> string list" where
  "path_elems name = filter (\<lambda>e. e \<noteq> [] \<and> e \<noteq> ''.'') (strings_Split name CHR ''/'')"

definition os_Stat :: "node \<Rightarrow> string \<Rightarrow> errno + node" where
  "os_Stat fs name =
     (case name_error name of
        Some e \<Rightarrow> Inl e
      | None \<Rightarrow>
          if ''..'' \<in> set (path_elems name) then Inl EACCES else lookup fs (path_elems name))"

definition os_MkdirAll :: "node \<Rightarrow> string \<Rightarrow> errno option \<times> node" where
  "os_MkdirAll fs name =
     (if name = [] then (Some ENOENT, fs)
      else if ''..'' \<in> set (path_elems name) then (Some EACCES, fs)
      else mkdir_all 0 fs (path_elems name))"

definition os_WriteFile :: "node \<Rightarrow> string \<Rightarrow> string \<Rightarrow> errno + node" where
  "os_WriteFile fs name d =
     (case name_error name of
        Some e \<Rightarrow> Inl e
      | None \<Rightarrow>
          if ''..'' \<in> set (path_elems name) then Inl EACCES
          else write_file fs (path_elems name) d)"

text \<open>\<^verbatim>\<open>os.IsNotExist(err)\<close> for the error of a result.\<close>

definition os_IsNotExist :: "errno + 'a \<Rightarrow> bool" where
  "os_IsNotExist res = (case res of Inl e \<Rightarrow> e = ENOENT | Inr v \<Rightarrow> False)"

subsection \<open>Package net/http\<close>

text \<open>
  A response is a status code, the header map and the body. A request carries its method,
  the path of its URL, the result of \<^verbatim>\<open>r.BasicAuth()\<close> (the user name and
  password of a well-formed \<^verbatim>\<open>Authorization\<close> header, or nothing; HTTP Basic
  credentials are split at their first colon, so the user name has none) and the result of
  reading its body.

  What \<^verbatim>\<open>http.ServeFile\<close> answers to a request with a \<^verbatim>\<open>Range\<close> or
  a conditional header (\<^verbatim>\<open>If-Range\<close>, \<^verbatim>\<open>If-Match\<close>,
  \<^verbatim>\<open>If-None-Match\<close>, \<^verbatim>\<open>If-Modified-Since\<close>,
  \<^verbatim>\<open>If-Unmodified-Since\<close>) for a regular file (206 with a part of it, 304, 412,
  416) depends on the modification time of the file, which the storage tree does not hold,
  and is taken as a parameter of the request: \<^verbatim>\<open>req_conditional\<close> is nothing
  for a request without such headers, and otherwise the answer as a function of the content
  of the file.
\<close>

record response =
  status :: nat
  headers :: "string \<rightharpoonup> string"
  resp_body :: string

record request =
  req_method :: string
  url_path :: string
  basic_auth :: "(string \<times> string) option"
  req_body :: "errno + string"
  req_conditional :: "(string \<Rightarrow> response) option"

text \<open>
  \<^verbatim>\<open>http.Error(w, msg, code)\<close>: sets the content type of the error text on the
  headers written so far, sends the status and the message followed by a newline.
\<close>

definition http_Error :: "(string \<rightharpoonup> string) \<Rightarrow> string \<Rightarrow> nat \<Rightarrow> response" where
  "http_Error h msg code =
     \<lparr>status = code,
      headers = (h |` (- {''Content-Length''}))
                  (''Content-Type'' \<mapsto> ''text/plain; charset=utf-8'',
                   ''X-Content-Type-Options'' \<mapsto> ''nosniff''),
      resp_body = msg @ [CHR 0x0A]\<rparr>"

definition http_NotFound :: "(string \<rightharpoonup> string) \<Rightarrow> response" where
  "http_NotFound h = http_Error h ''404 page not found'' 404"

definition localRedirect :: "(string \<rightharpoonup> string) \<Rightarrow> string \<Rightarrow> response" where
  "localRedirect h newPath = \<lparr>status = 301, headers = h(''Location'' \<mapsto> newPath), resp_body = []\<rparr>"

text \<open>
  \<^verbatim>\<open>containsDotDot\<close> of net/http: an element of the path is \<^verbatim>\<open>..\<close>,
  where the elements are separated by slashes and by backslashes.
\<close>

definition isSlashRune :: "char \<Rightarrow> bool" where
  "isSlashRune c = (c = CHR ''/'' \<or> c = CHR 0x5C)"

definition containsDotDot :: "string \<Rightarrow> bool" where
  "containsDotDot v = (''..'' \<in> set (strings_FieldsFunc v isSlashRune))"

text \<open>
  \<^verbatim>\<open>mapOpenError\<close> of net/http: an error of \<^verbatim>\<open>os.Open\<close> other than
  "does not exist" and "permission" becomes "does not exist" when a prefix of the name is
  a regular file. \<^verbatim>\<open>toHTTPError\<close> gives the message and the status of an error.
\<close>

fun map_open_walk :: "node \<Rightarrow> string list \<Rightarrow> string list \<Rightarrow> errno \<Rightarrow> errno" where
  "map_open_walk fs pre [] e = e"
| "map_open_walk fs pre (x # xs) e =
     (if x = [] then map_open_walk fs (pre @ [x]) xs e
      else (case os_Stat fs (strings_Join (pre @ [x])) of
              Inl e' \<Rightarrow> e
            | Inr (File c) \<Rightarrow> ENOENT
            | Inr (Dir es) \<Rightarrow> map_open_walk fs (pre @ [x]) xs e))"

definition mapOpenError :: "node \<Rightarrow> errno \<Rightarrow> string \<Rightarrow> errno" where
  "mapOpenError fs e name =
     (if e = ENOENT \<or> e = EACCES then e
      else map_open_walk fs [] (strings_Split name CHR ''/'') e)"

definition toHTTPError :: "errno \<Rightarrow> string \<times> nat" where
  "toHTTPError e =
     (if e = ENOENT then (''404 page not found'', 404)
      else if e = EACCES then (''403 Forbidden'', 403)
      else (''500 Internal Server Error'', 500))"

text \<open>
  \<^verbatim>\<open>http.ServeFile(w, r, name)\<close>. As its documentation says, it rejects a request
  whose URL path contains a \<^verbatim>\<open>..\<close> element, whatever the name is, and it
  redirects a URL path that ends in \<^verbatim>\<open>/index.html\<close>. Otherwise it opens the
  file part of the name in the directory part, through \<^verbatim>\<open>http.Dir.Open\<close>:
  \<^item> a file part that is not valid UTF-8 or has a NUL byte is refused with status 500
    (\<^verbatim>\<open>filepath.Localize\<close>, in \<^verbatim>\<open>http.Dir.Open\<close> since Go 1.23);
  \<^item> an error of \<^verbatim>\<open>os.Open\<close> is answered 404, 403 or 500;
  \<^item> a directory is answered by a redirect to the URL with a trailing slash;
  \<^item> a regular file is answered by its content with status 200, when the request has no
    \<^verbatim>\<open>Range\<close> or conditional header. The content type is taken from the headers
    when it is set there.

  A directory is listed only when the URL path already ends in a slash, which
  handleGetCalendar rules out; that branch is not modelled. Last-Modified, Content-Length
  and Accept-Ranges, which come from the file alone, are left out.
\<close>

definition http_ServeFile :: "(string \<rightharpoonup> string) \<Rightarrow> request \<Rightarrow> string \<Rightarrow> node \<Rightarrow> response" where
  "http_ServeFile h r name fs =
     (if containsDotDot (url_path r) then http_Error h ''invalid URL path'' 400
      else if strings_HasSuffix (url_path r) ''/index.html'' then localRedirect h ''./''
      else if \<not> utf8_ValidString (file_part name) \<or> CHR 0x00 \<in> set (file_part name) then
        http_Error h ''500 Internal Server Error'' 500
      else (case os_Stat fs name of
              Inl e \<Rightarrow>
                http_Error h (fst (toHTTPError (mapOpenError fs e name)))
                  (snd (toHTTPError (mapOpenError fs e name)))
            | Inr (Dir es) \<Rightarrow> localRedirect h (path_Base (url_path r) @ ''/'')
            | Inr (File c) \<Rightarrow>
                (case req_conditional r of
                   None \<Rightarrow> \<lparr>status = 200, headers = h, resp_body = c\<rparr>
                 | Some f \<Rightarrow> f c)))"

subsection \<open>main.go\<close>

definition dataDir :: string where
  "dataDir = ''calendars''"

text \<open>
  Both handlers compute the file of a request path by the same expression,
  \<^verbatim>\<open>filepath.Join(dataDir, filepath.Clean(path))\<close>.
\<close>

definition filePath_of :: "string \<Rightarrow> string" where
  "filePath_of path = filepath_Join [dataDir, filepath_Clean path]"

text \<open>handleGetCalendar: the public read. The storage tree is returned as it was.\<close>

definition handleGetCalendar :: "request \<Rightarrow> node \<Rightarrow> response \<times> node" where
  "handleGetCalendar r fs =
     (let path = url_path r in
      if \<not> strings_HasSuffix path ''.ics'' then (http_NotFound Map.empty, fs)
      else
        let filePath = filePath_of path in
        if os_IsNotExist (os_Stat fs filePath) then (http_NotFound Map.empty, fs)
        else (http_ServeFile [''Content-Type'' \<mapsto> ''text/calendar; charset=utf-8''] r filePath fs,
              fs))"

text \<open>
  handlePutCalendar: the write. Its first argument is the value of the request context
  under the key \<^verbatim>\<open>user\<close>, set by the middleware. Directories made before a later
  step fails stay in the tree.
\<close>

definition handlePutCalendar :: "string option \<Rightarrow> request \<Rightarrow> node \<Rightarrow> response \<times> node" where
  "handlePutCalendar ctx_user r fs =
     (let path = url_path r in
      if \<not> strings_HasSuffix path ''.ics'' then
        (http_Error Map.empty ''Invalid path. Must end with .ics'' 400, fs)
      else
        let parts = strings_Split (strings_Trim path ''/'') CHR ''/'' in
        if length parts < 2 then
          (http_Error Map.empty ''Invalid path format. Expected /{username}/{calendar}.ics'' 400, fs)
        else if (case ctx_user of None \<Rightarrow> True | Some authUser \<Rightarrow> authUser \<noteq> parts ! 0) then
          (http_Error Map.empty ''Forbidden. You can only edit your own calendars.'' 403, fs)
        else
          let filePath = filePath_of path;
              dir = filepath_Dir filePath in
          (case os_MkdirAll fs dir of
             (Some e, fs1) \<Rightarrow> (http_Error Map.empty ''Internal Server Error'' 500, fs1)
           | (None, fs1) \<Rightarrow>
               (case req_body r of
                  Inl e \<Rightarrow> (http_Error Map.empty ''Internal Server Error'' 500, fs1)
                | Inr body \<Rightarrow>
                    (case os_WriteFile fs1 filePath body of
                       Inl e \<Rightarrow> (http_Error Map.empty ''Internal Server Error'' 500, fs1)
                     | Inr fs2 \<Rightarrow> (\<lparr>status = 204, headers = Map.empty, resp_body = []\<rparr>, fs2)))))"

text \<open>
  authMiddleware: HTTP Basic authentication against the users map (the content of
  users.json, fixed once the server runs). A lookup of a missing key in a Go map gives the
  empty string and false.
\<close>

definition challenge :: string where
  "challenge = ''Basic realm='' @ [CHR 0x22] @ ''Restricted'' @ [CHR 0x22]"

definition authMiddleware ::
  "(string \<rightharpoonup> string) \<Rightarrow> (string option \<Rightarrow> request \<Rightarrow> node \<Rightarrow> response \<times> node) \<Rightarrow>
   request \<Rightarrow> node \<Rightarrow> response \<times> node" where
  "authMiddleware users next r fs =
     (case basic_auth r of
        None \<Rightarrow> (http_Error [''WWW-Authenticate'' \<mapsto> challenge] ''Unauthorized'' 401, fs)
      | Some (username, password) \<Rightarrow>
          (let expectedPassword = (case users username of None \<Rightarrow> [] | Some p \<Rightarrow> p);
               userExists = (users username \<noteq> None) in
           if \<not> userExists \<or> expectedPassword \<noteq> password then
             (http_Error [''WWW-Authenticate'' \<mapsto> challenge] ''Unauthorized'' 401, fs)
           else next (Some username) r fs))"

text \<open>calendarHandler: the router on the method.\<close>

definition calendarHandler :: "(string \<rightharpoonup> string) \<Rightarrow> request \<Rightarrow> node \<Rightarrow> response \<times> node" where
  "calendarHandler users r fs =
     (if req_method r = ''GET'' then handleGetCalendar r fs
      else if req_method r = ''PUT'' then authMiddleware users handlePutCalendar r fs
      else (http_Error Map.empty ''Method Not Allowed'' 405, fs))"

subsection \<open>Notions used to state the properties\<close>

text \<open>
  A request is authenticated when it carries Basic credentials whose password is the one
  the users map holds for the user name.
\<close>

definition authenticated :: "(string \<rightharpoonup> string) \<Rightarrow> request \<Rightarrow> bool" where
  "authenticated users r =
     (case basic_auth r of None \<Rightarrow> False | Some (u, p) \<Rightarrow> users u = Some p)"

text \<open>The response of the middleware to a request that is not authenticated.\<close>

definition unauthorized :: response where
  "unauthorized = http_Error [''WWW-Authenticate'' \<mapsto> challenge] ''Unauthorized'' 401"

text \<open>
  A real element of a path: not empty, without a separator, and neither \<^verbatim>\<open>.\<close> nor
  \<^verbatim>\<open>..\<close>. A path is a strict descendant of a root when it is the root followed by
  one or more real elements, each after a separator; no such path leaves the root.
\<close>

definition real_elem :: "string \<Rightarrow> bool" where
  "real_elem e = (e \<noteq> [] \<and> e \<noteq> ''.'' \<and> e \<noteq> ''..'' \<and> CHR ''/'' \<notin> set e)"

definition is_descendant :: "string \<Rightarrow> string \<Rightarrow> bool" where
  "is_descendant root p =
     (take (Suc (length root)) p = root @ ''/'' \<and>
      list_all real_elem (strings_Split (drop (Suc (length root)) p) CHR ''/''))"

text \<open>
  What \<^verbatim>\<open>os.Stat\<close> finds where a directory can be made (nothing, or a
  directory) and where a file can be written (nothing, or a regular file).
\<close>

definition absent_or_dir :: "errno + node \<Rightarrow> bool" where
  "absent_or_dir res =
     (case res of Inl e \<Rightarrow> e = ENOENT | Inr (File c) \<Rightarrow> False | Inr (Dir es) \<Rightarrow> True)"

definition absent_or_file :: "errno + node \<Rightarrow> bool" where
  "absent_or_file res =
     (case res of Inl e \<Rightarrow> e = ENOENT | Inr (File c) \<Rightarrow> True | Inr (Dir es) \<Rightarrow> False)"

text \<open>An element that the file system takes as the name of an entry.\<close>

definition valid_elem :: "string \<Rightarrow> bool" where
  "valid_elem e = (CHR 0x00 \<notin> set e \<and> length e \<le> NAME_MAX)"

text \<open>The URL path of the calendar \<^verbatim>\<open>name\<close> of \<^verbatim>\<open>owner\<close>.\<close>

definition calendar_path :: "string \<Rightarrow> string \<Rightarrow> string" where
  "calendar_path owner name = ''/'' @ owner @ ''/'' @ name @ ''.ics''"

text \<open>
  The storage layout named in the header of main.go,
  \<^verbatim>\<open>./calendars/{username}/{calendar}.ics\<close>: the directory of an owner and the
  file of a calendar.
\<close>

definition owner_dir :: "string \<Rightarrow> string" where
  "owner_dir owner = dataDir @ ''/'' @ owner"

definition calendar_file :: "string \<Rightarrow> string \<Rightarrow> string" where
  "calendar_file owner name = dataDir @ ''/'' @ owner @ ''/'' @ name @ ''.ics''"

text \<open>The response that serves a document.\<close>

definition served :: "string \<Rightarrow> response" where
  "served d =
     \<lparr>status = 200, headers = [''Content-Type'' \<mapsto> ''text/calendar; charset=utf-8''],
      resp_body = d\<rparr>"

text \<open>The credentials and the storage of the examples.\<close>

definition example_users :: "string \<rightharpoonup> string" where
  "example_users = [''alice'' \<mapsto> ''s3cr3t'', ''bob'' \<mapsto> ''hunter2'']"

definition example_storage :: node where
  "example_storage = Dir [(''calendars'', Dir [])]"

section \<open>Splitting, joining and cleaning paths\<close>

lemma Split_not_Nil [simp]: "strings_Split s c \<noteq> []"
  by (induction s) (auto split: list.splits)

lemma Split_no_sep: "e \<in> set (strings_Split s c) \<Longrightarrow> c \<notin> set e"
  by (induction s arbitrary: e) (auto split: list.splits if_splits)

lemma Split_append_sep: "strings_Split (a @ c # b) c = strings_Split a c @ strings_Split b c"
  by (induction a) (auto split: list.splits)

lemma Split_nosep: "c \<notin> set s \<Longrightarrow> strings_Split s c = [s]"
  by (induction s) auto

lemma Split_append_nosep:
  "c \<notin> set b \<Longrightarrow>
   strings_Split (a @ b) c = butlast (strings_Split a c) @ [last (strings_Split a c) @ b]"
  by (induction a) (auto simp: Split_nosep split: list.splits)

lemma Join_snoc: "es \<noteq> [] \<Longrightarrow> strings_Join (es @ [e]) = strings_Join es @ CHR ''/'' # e"
  by (cases es) auto

lemma Split_Join:
  "es \<noteq> [] \<Longrightarrow> \<forall>e\<in>set es. CHR ''/'' \<notin> set e \<Longrightarrow> strings_Split (strings_Join es) CHR ''/'' = es"
proof (induction es rule: rev_induct)
  case Nil
  then show ?case by simp
next
  case (snoc e es)
  show ?case
  proof (cases "es = []")
    case True
    with snoc.prems show ?thesis by (simp add: Split_nosep)
  next
    case False
    from snoc False have "strings_Split (strings_Join es) CHR ''/'' = es" by simp
    with snoc.prems show ?thesis
      unfolding Join_snoc [OF False] Split_append_sep by (simp add: Split_nosep)
  qed
qed

lemma foldl_clean_real:
  "\<forall>e\<in>set es. real_elem e \<Longrightarrow> foldl (clean_step r) st es = rev es @ st"
  by (induction es arbitrary: st) (simp_all add: clean_step_def real_elem_def)

lemma clean_step_rooted_real:
  "\<forall>t\<in>set st. real_elem t \<Longrightarrow> CHR ''/'' \<notin> set e \<Longrightarrow> \<forall>t\<in>set (clean_step True st e). real_elem t"
  unfolding clean_step_def by (cases st) (auto simp: real_elem_def)

lemma foldl_clean_rooted_real:
  "\<forall>t\<in>set st. real_elem t \<Longrightarrow> \<forall>e\<in>set es. CHR ''/'' \<notin> set e \<Longrightarrow>
   \<forall>t\<in>set (foldl (clean_step True) st es). real_elem t"
proof (induction es arbitrary: st)
  case Nil
  then show ?case by simp
next
  case (Cons e es)
  have "\<forall>t\<in>set (clean_step True st e). real_elem t"
    using Cons.prems by (intro clean_step_rooted_real) auto
  then show ?case using Cons by simp
qed

lemma HasSuffix_iff: "strings_HasSuffix s suf \<longleftrightarrow> (\<exists>z. s = z @ suf)"
proof
  assume "strings_HasSuffix s suf"
  then have "take (length suf) (rev s) = rev suf" by (simp add: strings_HasSuffix_def)
  then have "rev s = rev suf @ drop (length suf) (rev s)"
    by (metis append_take_drop_id)
  then have "s = rev (drop (length suf) (rev s)) @ suf"
    by (metis rev_append rev_rev_ident)
  then show "\<exists>z. s = z @ suf" ..
next
  assume "\<exists>z. s = z @ suf"
  then show "strings_HasSuffix s suf" by (auto simp: strings_HasSuffix_def)
qed

lemma real_elem_ics: "CHR ''/'' \<notin> set x \<Longrightarrow> real_elem (x @ ''.ics'')"
  by (cases x) (auto simp: real_elem_def)

lemma dataDir_facts:
  "dataDir \<noteq> []" "hd dataDir \<noteq> CHR ''/''" "CHR ''/'' \<notin> set dataDir" "real_elem dataDir"
  by (simp_all add: dataDir_def real_elem_def)

lemma Split_ics:
  assumes "strings_HasSuffix p ''.ics''"
  shows "\<exists>es l. strings_Split p CHR ''/'' = es @ [l] \<and> real_elem l"
proof -
  from assms obtain z where z: "p = z @ ''.ics''" by (auto simp: HasSuffix_iff)
  have "last (strings_Split z CHR ''/'') \<in> set (strings_Split z CHR ''/'')" by simp
  then have "CHR ''/'' \<notin> set (last (strings_Split z CHR ''/''))"
    by (rule Split_no_sep)
  then have "real_elem (last (strings_Split z CHR ''/'') @ ''.ics'')" by (rule real_elem_ics)
  moreover have "strings_Split p CHR ''/'' =
      butlast (strings_Split z CHR ''/'') @ [last (strings_Split z CHR ''/'') @ ''.ics'']"
    unfolding z by (rule Split_append_nosep) simp
  ultimately show ?thesis by blast
qed

lemma clean_elems_rooted:
  assumes "strings_HasSuffix p ''.ics''" and "hd p = CHR ''/''"
  shows "clean_elems p \<noteq> [] \<and> (\<forall>e\<in>set (clean_elems p). real_elem e)"
proof -
  from assms(1) have "p \<noteq> []" by (auto simp: HasSuffix_iff)
  with assms(2) have r: "(p \<noteq> [] \<and> hd p = CHR ''/'') = True" by simp
  from Split_ics [OF assms(1)] obtain es l
    where s: "strings_Split p CHR ''/'' = es @ [l]" and l: "real_elem l" by blast
  have "\<forall>e\<in>set es. CHR ''/'' \<notin> set e"
    using Split_no_sep [of _ p "CHR ''/''"] s by auto
  then have a: "\<forall>t\<in>set (foldl (clean_step True) [] es). real_elem t"
    by (intro foldl_clean_rooted_real) auto
  have "clean_step True (foldl (clean_step True) [] es) l = l # foldl (clean_step True) [] es"
    using l by (simp add: clean_step_def real_elem_def)
  then show ?thesis
    unfolding clean_elems_def r s using a l by simp
qed

lemma Clean_rooted:
  assumes "strings_HasSuffix p ''.ics''" and "hd p = CHR ''/''"
  shows "filepath_Clean p = CHR ''/'' # strings_Join (clean_elems p)"
proof -
  from assms(1) have "p \<noteq> []" by (auto simp: HasSuffix_iff)
  with assms(2) show ?thesis by (simp add: filepath_Clean_def)
qed

text \<open>Cleaning a relative path whose elements are known.\<close>

lemma Clean_relative:
  assumes "hd s \<noteq> CHR ''/''"
    and "foldl (clean_step False) [] (strings_Split s CHR ''/'') = st" and "st \<noteq> []"
    and "hd (rev st) \<noteq> []"
  shows "filepath_Clean s = strings_Join (rev st)"
proof -
  from assms(3) obtain e es where "rev st = e # es" by (cases "rev st") auto
  with assms(4) have "strings_Join (rev st) \<noteq> []" by simp
  with assms(1,2) show ?thesis by (simp add: filepath_Clean_def clean_elems_def)
qed

lemma Join_dataDir_real:
  assumes "cs \<noteq> []" and "\<forall>e\<in>set cs. real_elem e"
  shows "filepath_Join [dataDir, CHR ''/'' # strings_Join cs] = strings_Join (dataDir # cs)"
proof -
  from assms have ns: "\<forall>e\<in>set cs. CHR ''/'' \<notin> set e" by (auto simp: real_elem_def)
  let ?s = "dataDir @ CHR ''/'' # [] @ CHR ''/'' # strings_Join cs"
  have sp: "strings_Split ?s CHR ''/'' = dataDir # [] # cs"
    unfolding Split_append_sep using assms(1) ns dataDir_facts(3)
    by (simp add: Split_Join Split_nosep)
  have f: "foldl (clean_step False) [] (dataDir # [] # cs) = rev cs @ [dataDir]"
    using assms(2) dataDir_facts(4)
    by (simp add: foldl_clean_real) (simp add: clean_step_def real_elem_def)
  have "filepath_Clean ?s = strings_Join (rev (rev cs @ [dataDir]))"
    by (rule Clean_relative) (use sp f dataDir_facts in simp_all)
  then show ?thesis using dataDir_facts(1) by (simp add: filepath_Join_def)
qed

lemma filePath_of_rooted:
  assumes "strings_HasSuffix p ''.ics''" and "hd p = CHR ''/''"
  shows "filePath_of p = strings_Join (dataDir # clean_elems p)"
  unfolding filePath_of_def Clean_rooted [OF assms]
  using clean_elems_rooted [OF assms] by (intro Join_dataDir_real) auto

text \<open>The model of \<^verbatim>\<open>filepath.Clean\<close> on cases of the table in Go's own test of it.\<close>

lemma Clean_examples:
  "filepath_Clean ''abc//def//ghi'' = ''abc/def/ghi''"
  "filepath_Clean ''abc/./def'' = ''abc/def''"
  "filepath_Clean ''abc/def/../ghi/../jkl'' = ''abc/jkl''"
  "filepath_Clean ''abc/def/../..'' = ''.''"
  "filepath_Clean ''/abc/def/../../..'' = ''/''"
  "filepath_Clean ''abc/def/../../../ghi/jkl/../../../mno'' = ''../../mno''"
  "filepath_Clean ''/../abc'' = ''/abc''"
  "filepath_Clean ''abc/../../././../def'' = ''../../def''"
  "filepath_Clean ''/abc/'' = ''/abc''"
  "filepath_Clean [] = ''.''"
  by (simp_all add: filepath_Clean_def clean_elems_def clean_step_def)

section \<open>The storage location of a request path\<close>

text \<open>
  The server of net/http parses the target of every request with
  \<^verbatim>\<open>url.ParseRequestURI\<close>, which leaves three shapes of \<^verbatim>\<open>r.URL.Path\<close>:
  the empty string, \<^verbatim>\<open>*\<close>, and a path that starts with a separator. Both handlers
  answer a path that does not end in \<^verbatim>\<open>.ics\<close> before they compute a location, so
  every inbound path that reaches \<^verbatim>\<open>filepath.Join\<close> starts with a separator.
\<close>

text \<open>
  Claim C1. For every inbound URL path, with or without \<^verbatim>\<open>.\<close> and
  \<^verbatim>\<open>..\<close> elements, the location that handleGetCalendar and handlePutCalendar
  compute by joining the storage root with the cleaned path is a strict descendant of the
  storage root \<^verbatim>\<open>calendars\<close>: the root followed by one or more real elements.
\<close>

theorem storage_location_descendant:
  assumes "strings_HasSuffix path ''.ics''" and "hd path = CHR ''/''"
  shows "is_descendant dataDir (filePath_of path)"
proof -
  define cs where "cs = clean_elems path"
  from clean_elems_rooted [OF assms] have ne: "cs \<noteq> []" and re: "\<forall>e\<in>set cs. real_elem e"
    by (auto simp: cs_def)
  then have ns: "\<forall>e\<in>set cs. CHR ''/'' \<notin> set e" by (auto simp: real_elem_def)
  have "filePath_of path = dataDir @ CHR ''/'' # strings_Join cs"
    unfolding filePath_of_rooted [OF assms] using ne by (cases cs) (auto simp: cs_def)
  then show ?thesis
    using ne ns re by (simp add: is_descendant_def Split_Join list_all_iff)
qed

theorem storage_location_descendant_witness:
  "strings_HasSuffix ''/alice/../../../etc/passwd.ics'' ''.ics'' \<and>
   hd ''/alice/../../../etc/passwd.ics'' = CHR ''/'' \<and>
   is_descendant dataDir (filePath_of ''/alice/../../../etc/passwd.ics'')"
  using storage_location_descendant [of "''/alice/../../../etc/passwd.ics''"]
  by (simp add: strings_HasSuffix_def)

text \<open>
  The leading separator matters: joined to the root, a cleaned relative path that starts
  with \<^verbatim>\<open>..\<close> leaves the root. No request of the server carries such a path.
\<close>

lemma relative_path_leaves_root: "filePath_of ''../x.ics'' = ''x.ics''"
  by (simp add: filePath_of_def dataDir_def filepath_Join_def filepath_Clean_def
      clean_elems_def clean_step_def)

section \<open>Authentication\<close>

lemma authMiddleware_reject:
  "\<not> authenticated users r \<Longrightarrow> authMiddleware users next r fs = (unauthorized, fs)"
  by (auto simp: authenticated_def authMiddleware_def unauthorized_def split: option.splits)

lemma authMiddleware_accept:
  "basic_auth r = Some (u, p) \<Longrightarrow> users u = Some p \<Longrightarrow>
   authMiddleware users next r fs = next (Some u) r fs"
  by (simp add: authMiddleware_def)

lemma status_Error [simp]: "status (http_Error h msg code) = code"
  by (simp add: http_Error_def)

lemma status_unauthorized: "status unauthorized = 401"
  by (simp add: unauthorized_def)

text \<open>
  Claim C4. A \<^verbatim>\<open>PUT\<close> without credentials, one with a wrong password for a user of
  the users map and one for a user that the map does not hold get the same response,
  whatever their paths, bodies and the storage are: status 401, the challenge header
  \<^verbatim>\<open>WWW-Authenticate: Basic realm="Restricted"\<close> and the body
  \<^verbatim>\<open>Unauthorized\<close>.
\<close>

theorem auth_failures_indistinguishable:
  assumes "req_method r1 = ''PUT''" and "req_method r2 = ''PUT''" and "req_method r3 = ''PUT''"
    and "basic_auth r1 = None"
    and "basic_auth r2 = Some (u2, p2)" and "users u2 = Some q" and "q \<noteq> p2"
    and "basic_auth r3 = Some (u3, p3)" and "users u3 = None"
  shows "fst (calendarHandler users r1 fs1) = fst (calendarHandler users r2 fs2) \<and>
         fst (calendarHandler users r2 fs2) = fst (calendarHandler users r3 fs3) \<and>
         status (fst (calendarHandler users r3 fs3)) = 401 \<and>
         headers (fst (calendarHandler users r3 fs3)) ''WWW-Authenticate'' = Some challenge \<and>
         resp_body (fst (calendarHandler users r3 fs3)) = ''Unauthorized'' @ [CHR 0x0A]"
proof -
  have "\<not> authenticated users r1" "\<not> authenticated users r2" "\<not> authenticated users r3"
    using assms by (auto simp: authenticated_def)
  then have "calendarHandler users r1 fs1 = (unauthorized, fs1)"
    "calendarHandler users r2 fs2 = (unauthorized, fs2)"
    "calendarHandler users r3 fs3 = (unauthorized, fs3)"
    using assms(1-3) by (simp_all add: calendarHandler_def authMiddleware_reject)
  then show ?thesis by (simp add: unauthorized_def http_Error_def)
qed

theorem auth_failures_indistinguishable_witness:
  "fst (calendarHandler example_users
          \<lparr>req_method = ''PUT'', url_path = ''/alice/work.ics'', basic_auth = None,
           req_body = Inr ''X'', req_conditional = None\<rparr> example_storage) =
   fst (calendarHandler example_users
          \<lparr>req_method = ''PUT'', url_path = ''/alice/work.ics'',
           basic_auth = Some (''alice'', ''guess''), req_body = Inr ''X'', req_conditional = None\<rparr> example_storage) \<and>
   fst (calendarHandler example_users
          \<lparr>req_method = ''PUT'', url_path = ''/alice/work.ics'',
           basic_auth = Some (''alice'', ''guess''), req_body = Inr ''X'', req_conditional = None\<rparr> example_storage) =
   fst (calendarHandler example_users
          \<lparr>req_method = ''PUT'', url_path = ''/alice/work.ics'',
           basic_auth = Some (''carol'', ''guess''), req_body = Inr ''X'', req_conditional = None\<rparr> example_storage) \<and>
   status (fst (calendarHandler example_users
          \<lparr>req_method = ''PUT'', url_path = ''/alice/work.ics'',
           basic_auth = Some (''carol'', ''guess''), req_body = Inr ''X'', req_conditional = None\<rparr> example_storage)) = 401"
  using auth_failures_indistinguishable
    [of "\<lparr>req_method = ''PUT'', url_path = ''/alice/work.ics'', basic_auth = None,
          req_body = Inr ''X'', req_conditional = None\<rparr>"
      "\<lparr>req_method = ''PUT'', url_path = ''/alice/work.ics'',
        basic_auth = Some (''alice'', ''guess''), req_body = Inr ''X'', req_conditional = None\<rparr>"
      "\<lparr>req_method = ''PUT'', url_path = ''/alice/work.ics'',
        basic_auth = Some (''carol'', ''guess''), req_body = Inr ''X'', req_conditional = None\<rparr>"
      "''alice''" "''guess''" example_users "''s3cr3t''" "''carol''" "''guess''"
      example_storage example_storage example_storage]
  by (simp add: example_users_def)

text \<open>
  Claim C7. The middleware runs before handlePutCalendar looks at the path: a
  \<^verbatim>\<open>PUT\<close> that is not authenticated gets the 401 response with the challenge and
  leaves the storage alone, whatever its path is, and a \<^verbatim>\<open>PUT\<close> that is answered
  400 is authenticated.
\<close>

theorem put_authenticates_first:
  assumes "req_method r = ''PUT''"
  shows "(\<not> authenticated users r \<longrightarrow> calendarHandler users r fs = (unauthorized, fs)) \<and>
         status unauthorized = 401 \<and>
         headers unauthorized ''WWW-Authenticate'' = Some challenge \<and>
         (status (fst (calendarHandler users r fs)) = 400 \<longrightarrow> authenticated users r)"
proof (cases "authenticated users r")
  case True
  then show ?thesis by (simp add: unauthorized_def http_Error_def)
next
  case False
  with assms have "calendarHandler users r fs = (unauthorized, fs)"
    by (simp add: calendarHandler_def authMiddleware_reject)
  with False show ?thesis by (simp add: unauthorized_def http_Error_def)
qed

theorem put_authenticates_first_witness:
  "\<not> authenticated example_users
       \<lparr>req_method = ''PUT'', url_path = ''/notes.txt'',
        basic_auth = Some (''alice'', ''guess''), req_body = Inr ''X'', req_conditional = None\<rparr> \<and>
   calendarHandler example_users
       \<lparr>req_method = ''PUT'', url_path = ''/notes.txt'',
        basic_auth = Some (''alice'', ''guess''), req_body = Inr ''X'', req_conditional = None\<rparr> example_storage =
     (unauthorized, example_storage) \<and>
   status unauthorized = 401 \<and>
   headers unauthorized ''WWW-Authenticate'' = Some challenge \<and>
   status (fst (calendarHandler example_users
       \<lparr>req_method = ''PUT'', url_path = ''/notes.txt'',
        basic_auth = Some (''alice'', ''s3cr3t''), req_body = Inr ''X'', req_conditional = None\<rparr> example_storage)) = 400 \<and>
   authenticated example_users
       \<lparr>req_method = ''PUT'', url_path = ''/notes.txt'',
        basic_auth = Some (''alice'', ''s3cr3t''), req_body = Inr ''X'', req_conditional = None\<rparr>"
proof -
  have a: "\<not> authenticated example_users
       \<lparr>req_method = ''PUT'', url_path = ''/notes.txt'',
        basic_auth = Some (''alice'', ''guess''), req_body = Inr ''X'', req_conditional = None\<rparr>"
    by (simp add: authenticated_def example_users_def)
  have b: "status (fst (calendarHandler example_users
       \<lparr>req_method = ''PUT'', url_path = ''/notes.txt'',
        basic_auth = Some (''alice'', ''s3cr3t''), req_body = Inr ''X'', req_conditional = None\<rparr> example_storage)) = 400"
    by (simp add: calendarHandler_def authMiddleware_def handlePutCalendar_def
        strings_HasSuffix_def example_users_def)
  show ?thesis
    using a b
      put_authenticates_first [of "\<lparr>req_method = ''PUT'', url_path = ''/notes.txt'',
        basic_auth = Some (''alice'', ''guess''), req_body = Inr ''X'', req_conditional = None\<rparr>" example_users example_storage]
      put_authenticates_first [of "\<lparr>req_method = ''PUT'', url_path = ''/notes.txt'',
        basic_auth = Some (''alice'', ''s3cr3t''), req_body = Inr ''X'', req_conditional = None\<rparr>" example_users example_storage]
    by (simp add: unauthorized_def http_Error_def)
qed

section \<open>Reading\<close>

lemma ics_not_index:
  assumes "strings_HasSuffix p ''.ics''"
  shows "\<not> strings_HasSuffix p ''/index.html''"
proof
  assume "strings_HasSuffix p ''/index.html''"
  then obtain y where "p = y @ ''/index.html''" by (auto simp: HasSuffix_iff)
  then have "last p = CHR ''l''" by simp
  moreover from assms obtain z where "p = z @ ''.ics''" by (auto simp: HasSuffix_iff)
  then have "last p = CHR ''s''" by simp
  ultimately show False by simp
qed

lemma handleGet_storage [simp]: "snd (handleGetCalendar r fs) = fs"
  by (simp add: handleGetCalendar_def Let_def)

lemma ServeFile_path:
  assumes "url_path g = url_path r" and "req_conditional g = req_conditional r"
  shows "http_ServeFile h g name fs = http_ServeFile h r name fs"
  unfolding http_ServeFile_def assms by (rule refl)

lemma handleGet_path:
  assumes "url_path g = url_path r" and "req_conditional g = req_conditional r"
  shows "handleGetCalendar g fs = handleGetCalendar r fs"
  unfolding handleGetCalendar_def ServeFile_path [OF assms] assms(1) by (rule refl)

lemma handleGet_basic_auth [simp]:
  "handleGetCalendar (r\<lparr>basic_auth := a\<rparr>) fs = handleGetCalendar r fs"
  by (rule handleGet_path) simp_all

lemma Stat_no_NUL: "os_Stat fs name = Inr n \<Longrightarrow> CHR 0x00 \<notin> set (file_part name)"
  by (auto simp: os_Stat_def name_error_def file_part_def split: if_splits dest: set_takeWhileD)

text \<open>When handleGetCalendar serves the regular file at the location of the path.\<close>

lemma handleGet_file:
  assumes "strings_HasSuffix (url_path r) ''.ics''" and "\<not> containsDotDot (url_path r)"
    and "utf8_ValidString (file_part (filePath_of (url_path r)))"
    and "req_conditional r = None"
    and "os_Stat fs (filePath_of (url_path r)) = Inr (File c)"
  shows "handleGetCalendar r fs = (served c, fs)"
  using assms ics_not_index [OF assms(1)] Stat_no_NUL [OF assms(5)]
  by (simp add: handleGetCalendar_def http_ServeFile_def os_IsNotExist_def served_def)

lemma toHTTPError_status: "snd (toHTTPError e) \<in> {403, 404, 500}"
  by (simp add: toHTTPError_def)

lemma handleGet_200:
  assumes "status (fst (handleGetCalendar r fs)) = 200" and "req_conditional r = None"
  shows "headers (fst (handleGetCalendar r fs)) ''Content-Type'' =
           Some ''text/calendar; charset=utf-8''"
proof -
  have "snd (toHTTPError e) \<noteq> 200" for e using toHTTPError_status [of e] by auto
  with assms show ?thesis
    by (auto simp: handleGetCalendar_def http_ServeFile_def Let_def http_NotFound_def
        localRedirect_def split: if_splits sum.splits node.splits)
qed

lemma handleGet_dotdot:
  assumes "strings_HasSuffix (url_path r) ''.ics''" and "containsDotDot (url_path r)"
    and "\<not> os_IsNotExist (os_Stat fs (filePath_of (url_path r)))"
  shows "status (fst (handleGetCalendar r fs)) = 400"
  using assms by (simp add: handleGetCalendar_def http_ServeFile_def)

text \<open>
  Claim C6, as amended. The response to a \<^verbatim>\<open>GET\<close> does not depend on the
  credentials of the request, nor on the users map: the router hands a \<^verbatim>\<open>GET\<close>
  to handleGetCalendar without the middleware. The claim goes on to say that an existing
  file is served; http.ServeFile refuses a URL path with a \<^verbatim>\<open>..\<close> element
  with status 400, also when the file exists. What holds: a regular file at the location of
  the path is served whole, with status 200 and media type
  \<^verbatim>\<open>text/calendar; charset=utf-8\<close>, whoever asks, when the path has no
  \<^verbatim>\<open>..\<close> element (between slashes or backslashes), the name of the file is
  valid UTF-8 and the request has no \<^verbatim>\<open>Range\<close> or conditional header; and
  every answer 200 to such a request has that media type.
\<close>

theorem get_ignores_credentials:
  assumes "req_method r = ''GET''"
  shows "calendarHandler users (r\<lparr>basic_auth := a\<rparr>) fs = calendarHandler users' r fs \<and>
         (req_conditional r = None \<and> status (fst (calendarHandler users r fs)) = 200 \<longrightarrow>
            headers (fst (calendarHandler users r fs)) ''Content-Type'' =
              Some ''text/calendar; charset=utf-8'') \<and>
         (strings_HasSuffix (url_path r) ''.ics'' \<and> \<not> containsDotDot (url_path r) \<and>
          utf8_ValidString (file_part (filePath_of (url_path r))) \<and>
          req_conditional r = None \<and>
          os_Stat fs (filePath_of (url_path r)) = Inr (File c) \<longrightarrow>
            calendarHandler users (r\<lparr>basic_auth := a\<rparr>) fs = (served c, fs)) \<and>
         (strings_HasSuffix (url_path r) ''.ics'' \<and> containsDotDot (url_path r) \<and>
          \<not> os_IsNotExist (os_Stat fs (filePath_of (url_path r))) \<longrightarrow>
            status (fst (calendarHandler users r fs)) = 400)"
proof -
  have h: "calendarHandler us (r\<lparr>basic_auth := b\<rparr>) fs = handleGetCalendar r fs"
    "calendarHandler us r fs = handleGetCalendar r fs" for us b
    using assms by (simp_all add: calendarHandler_def)
  show ?thesis
    unfolding h
    using handleGet_200 [of r fs] handleGet_file [of r fs c] handleGet_dotdot [of r fs]
    by blast
qed

theorem get_ignores_credentials_witness:
  "calendarHandler example_users
     \<lparr>req_method = ''GET'', url_path = ''/alice/work.ics'',
      basic_auth = Some (''mallory'', ''guess''), req_body = Inr [], req_conditional = None\<rparr>
     (Dir [(''calendars'', Dir [(''alice'', Dir [(''work.ics'', File ''X'')])])]) =
   calendarHandler Map.empty
     \<lparr>req_method = ''GET'', url_path = ''/alice/work.ics'',
      basic_auth = None, req_body = Inr [], req_conditional = None\<rparr>
     (Dir [(''calendars'', Dir [(''alice'', Dir [(''work.ics'', File ''X'')])])]) \<and>
   calendarHandler example_users
     \<lparr>req_method = ''GET'', url_path = ''/alice/work.ics'',
      basic_auth = Some (''mallory'', ''guess''), req_body = Inr [], req_conditional = None\<rparr>
     (Dir [(''calendars'', Dir [(''alice'', Dir [(''work.ics'', File ''X'')])])]) =
   (served ''X'', Dir [(''calendars'', Dir [(''alice'', Dir [(''work.ics'', File ''X'')])])])"
proof -
  let ?r = "\<lparr>req_method = ''GET'', url_path = ''/alice/work.ics'',
      basic_auth = None, req_body = Inr [], req_conditional = None\<rparr>"
  let ?fs = "Dir [(''calendars'', Dir [(''alice'', Dir [(''work.ics'', File ''X'')])])]"
  have f: "filePath_of ''/alice/work.ics'' = ''calendars/alice/work.ics''"
    by (simp add: filePath_of_def dataDir_def filepath_Join_def filepath_Clean_def
        clean_elems_def clean_step_def)
  have 1: "strings_HasSuffix (url_path ?r) ''.ics''" by (simp add: strings_HasSuffix_def)
  have 2: "\<not> containsDotDot (url_path ?r)"
    by (simp add: containsDotDot_def strings_FieldsFunc_def isSlashRune_def)
  have 3: "utf8_ValidString (file_part (filePath_of (url_path ?r)))"
    by (simp add: f file_part_def utf8_ValidString_def)
  have 4: "os_Stat ?fs (filePath_of (url_path ?r)) = Inr (File ''X'')"
    by (simp add: f os_Stat_def name_error_def path_elems_def PATH_MAX_def NAME_MAX_def)
  note T = get_ignores_credentials
    [of ?r example_users "Some (''mallory'', ''guess'')" ?fs Map.empty "''X''"]
  have A: "calendarHandler example_users
     \<lparr>req_method = ''GET'', url_path = ''/alice/work.ics'',
      basic_auth = Some (''mallory'', ''guess''), req_body = Inr [], req_conditional = None\<rparr>
     ?fs = calendarHandler Map.empty ?r ?fs"
    using T [THEN conjunct1] by simp
  have B: "calendarHandler example_users
     \<lparr>req_method = ''GET'', url_path = ''/alice/work.ics'',
      basic_auth = Some (''mallory'', ''guess''), req_body = Inr [], req_conditional = None\<rparr>
     ?fs = (served ''X'', ?fs)"
    using T [THEN conjunct2, THEN conjunct2, THEN conjunct1] 1 2 3 4 by simp
  show ?thesis by (rule conjI [OF A B])
qed

theorem existing_file_refused:
  "os_Stat (Dir [(''calendars'', Dir [(''alice'', Dir [(''work.ics'', File ''X'')])])])
     (filePath_of ''/alice/../alice/work.ics'') = Inr (File ''X'') \<and>
   status (fst (calendarHandler example_users
     \<lparr>req_method = ''GET'', url_path = ''/alice/../alice/work.ics'',
      basic_auth = None, req_body = Inr [], req_conditional = None\<rparr>
     (Dir [(''calendars'', Dir [(''alice'', Dir [(''work.ics'', File ''X'')])])]))) = 400"
proof -
  have f: "filePath_of ''/alice/../alice/work.ics'' = ''calendars/alice/work.ics''"
    by (simp add: filePath_of_def dataDir_def filepath_Join_def filepath_Clean_def
        clean_elems_def clean_step_def)
  have c: "containsDotDot ''/alice/../alice/work.ics''"
    by (simp add: containsDotDot_def strings_FieldsFunc_def isSlashRune_def)
  have s: "os_Stat (Dir [(''calendars'', Dir [(''alice'', Dir [(''work.ics'', File ''X'')])])])
     ''calendars/alice/work.ics'' = Inr (File ''X'')"
    by (simp add: os_Stat_def name_error_def path_elems_def PATH_MAX_def NAME_MAX_def)
  show ?thesis
    using c s
    by (simp add: f calendarHandler_def handleGetCalendar_def http_ServeFile_def
        os_IsNotExist_def strings_HasSuffix_def)
qed

section \<open>The ownership check\<close>

lemma calendarHandler_put:
  assumes "req_method r = ''PUT''" and "basic_auth r = Some (u, p)" and "users u = Some p"
  shows "calendarHandler users r fs = handlePutCalendar (Some u) r fs"
  using assms by (simp add: calendarHandler_def authMiddleware_accept)

text \<open>
  Claim C10. For an authenticated \<^verbatim>\<open>PUT\<close> that reaches the ownership check (its
  path ends in \<^verbatim>\<open>.ics\<close> and has two or more segments), the check compares the
  authenticated user name with the first segment of the raw path, trimmed of leading and
  trailing separators and split at the separators, before any cleaning: when the two
  strings differ, in the case of a letter as well, the response is 403 and the storage is
  as before; when they are equal the response is not 403.
\<close>

theorem ownership_check_on_raw_segment:
  assumes "req_method r = ''PUT''" and "basic_auth r = Some (u, p)" and "users u = Some p"
    and "strings_HasSuffix (url_path r) ''.ics''"
    and "2 \<le> length (strings_Split (strings_Trim (url_path r) ''/'') CHR ''/'')"
  shows "(u \<noteq> strings_Split (strings_Trim (url_path r) ''/'') CHR ''/'' ! 0 \<longrightarrow>
            calendarHandler users r fs =
              (http_Error Map.empty ''Forbidden. You can only edit your own calendars.'' 403, fs)) \<and>
         (u = strings_Split (strings_Trim (url_path r) ''/'') CHR ''/'' ! 0 \<longrightarrow>
            status (fst (calendarHandler users r fs)) \<in> {204, 500})"
proof -
  have "calendarHandler users r fs = handlePutCalendar (Some u) r fs"
    using assms(1-3) by (rule calendarHandler_put)
  then show ?thesis
    using assms(4,5)
    by (auto simp: handlePutCalendar_def Let_def split: sum.splits prod.splits option.splits)
qed

theorem ownership_check_on_raw_segment_witness:
  "strings_Split (strings_Trim ''/Alice/x.ics'' ''/'') CHR ''/'' ! 0 = ''Alice'' \<and>
   calendarHandler example_users
     \<lparr>req_method = ''PUT'', url_path = ''/Alice/x.ics'',
      basic_auth = Some (''alice'', ''s3cr3t''), req_body = Inr ''X'', req_conditional = None\<rparr> example_storage =
   (http_Error Map.empty ''Forbidden. You can only edit your own calendars.'' 403,
    example_storage) \<and>
   strings_Split (strings_Trim ''/alice/../bob/x.ics'' ''/'') CHR ''/'' ! 0 = ''alice'' \<and>
   status (fst (calendarHandler example_users
     \<lparr>req_method = ''PUT'', url_path = ''/alice/../bob/x.ics'',
      basic_auth = Some (''alice'', ''s3cr3t''), req_body = Inr ''X'', req_conditional = None\<rparr> example_storage))
     \<in> {204, 500}"
proof -
  have 1: "strings_Split (strings_Trim ''/Alice/x.ics'' ''/'') CHR ''/'' = [''Alice'', ''x.ics'']"
    by (simp add: strings_Trim_def)
  have 2: "strings_Split (strings_Trim ''/alice/../bob/x.ics'' ''/'') CHR ''/'' =
      [''alice'', ''..'', ''bob'', ''x.ics'']"
    by (simp add: strings_Trim_def)
  have 3: "strings_HasSuffix ''/Alice/x.ics'' ''.ics''" "strings_HasSuffix ''/alice/../bob/x.ics'' ''.ics''"
    by (simp_all add: strings_HasSuffix_def)
  have u: "example_users ''alice'' = Some ''s3cr3t''" by (simp add: example_users_def)
  have A: "calendarHandler example_users
     \<lparr>req_method = ''PUT'', url_path = ''/Alice/x.ics'',
      basic_auth = Some (''alice'', ''s3cr3t''), req_body = Inr ''X'', req_conditional = None\<rparr> example_storage =
   (http_Error Map.empty ''Forbidden. You can only edit your own calendars.'' 403,
    example_storage)"
    using ownership_check_on_raw_segment [of "\<lparr>req_method = ''PUT'', url_path = ''/Alice/x.ics'',
      basic_auth = Some (''alice'', ''s3cr3t''), req_body = Inr ''X'', req_conditional = None\<rparr>" "''alice''" "''s3cr3t''"
      example_users example_storage, THEN conjunct1] 1 3 u by simp
  have B: "status (fst (calendarHandler example_users
     \<lparr>req_method = ''PUT'', url_path = ''/alice/../bob/x.ics'',
      basic_auth = Some (''alice'', ''s3cr3t''), req_body = Inr ''X'', req_conditional = None\<rparr> example_storage))
     \<in> {204, 500}"
    using ownership_check_on_raw_segment [of "\<lparr>req_method = ''PUT'', url_path = ''/alice/../bob/x.ics'',
      basic_auth = Some (''alice'', ''s3cr3t''), req_body = Inr ''X'', req_conditional = None\<rparr>" "''alice''" "''s3cr3t''"
      example_users example_storage, THEN conjunct2] 2 3 u by simp
  show ?thesis using 1 2 A B by simp
qed

text \<open>
  Claim C2. The claim takes the owner of a path to be its first segment after cleaning and
  asks for 403 and an untouched storage whenever another user writes there. The handler
  compares with the first segment of the raw path and cleans afterwards: alice, with her own
  password, writes \<^verbatim>\<open>/alice/../bob/x.ics\<close>, whose cleaned path is
  \<^verbatim>\<open>/bob/x.ics\<close>; the answer is 204 and the document is created in the directory
  of bob.
\<close>

theorem write_into_other_owner:
  "filepath_Clean ''/alice/../bob/x.ics'' = ''/bob/x.ics'' \<and>
   calendarHandler example_users
     \<lparr>req_method = ''PUT'', url_path = ''/alice/../bob/x.ics'',
      basic_auth = Some (''alice'', ''s3cr3t''), req_body = Inr ''X'', req_conditional = None\<rparr> example_storage =
   (\<lparr>status = 204, headers = Map.empty, resp_body = []\<rparr>,
    Dir [(''calendars'', Dir [(''bob'', Dir [(''x.ics'', File ''X'')])])])"
  by (simp add: calendarHandler_def authMiddleware_def handlePutCalendar_def
      filePath_of_def dataDir_def filepath_Join_def filepath_Clean_def clean_elems_def
      clean_step_def filepath_Dir_def path_elems_def strings_Trim_def strings_HasSuffix_def
      os_MkdirAll_def os_WriteFile_def name_error_def prefix_len_def PATH_MAX_def NAME_MAX_def
      example_users_def example_storage_def)

section \<open>The storage tree\<close>

lemma write_file_lookup: "write_file n p d = Inr n' \<Longrightarrow> lookup n' p = Inr (File d)"
proof (induction n p d arbitrary: n' rule: write_file.induct)
  case (4 es x xs d)
  then show ?case
    by (auto simp: update_conv' split: option.splits if_splits sum.splits)
qed auto

lemma prefix_len_le: "prefix_len k x \<le> k + Suc (length x)"
  by (simp add: prefix_len_def)

text \<open>
  Making directories succeeds where nothing or a directory is found, the elements are names
  of entries and the name is short enough.
\<close>

lemma mkdir_all_succeeds:
  assumes "absent_or_dir (lookup n p)" and "\<forall>x\<in>set p. valid_elem x"
    and "k + sum_list (map (\<lambda>x. Suc (length x)) p) < PATH_MAX"
  shows "fst (mkdir_all k n p) = None"
  using assms
proof (induction p arbitrary: n k)
  case Nil
  then show ?case by (cases n) (auto simp: absent_or_dir_def)
next
  case (Cons x xs)
  from Cons.prems(2) have v: "CHR 0x00 \<notin> set x" "\<not> NAME_MAX < length x"
    by (auto simp: valid_elem_def)
  have "prefix_len k x \<le> k + Suc (length x)" by (rule prefix_len_le)
  with Cons.prems(3) have b: "\<not> PATH_MAX \<le> prefix_len k x"
    and b': "prefix_len k x + sum_list (map (\<lambda>x. Suc (length x)) xs) < PATH_MAX"
    by auto
  from Cons.prems(2) have vs: "\<forall>x\<in>set xs. valid_elem x" by simp
  show ?case
  proof (cases n)
    case (File c)
    with Cons.prems show ?thesis by (simp add: absent_or_dir_def)
  next
    case (Dir es)
    show ?thesis
    proof (cases "map_of es x")
      case None
      have "absent_or_dir (lookup (Dir []) xs)"
        using vs by (cases xs) (auto simp: absent_or_dir_def valid_elem_def)
      from Cons.IH [OF this vs b'] show ?thesis
        using Dir None v b by (simp add: split_beta)
    next
      case (Some m)
      with Cons.prems(1) Dir v have "absent_or_dir (lookup m xs)" by simp
      from Cons.IH [OF this vs b'] show ?thesis
        using Dir Some v b by (simp add: split_beta)
    qed
  qed
qed

lemma mkdir_all_lookup_dir:
  "fst (mkdir_all k n p) = None \<Longrightarrow> \<exists>es. lookup (snd (mkdir_all k n p)) p = Inr (Dir es)"
proof (induction k n p rule: mkdir_all.induct)
  case (3 k es x xs)
  then show ?case
    by (auto simp: update_conv' split: prod.splits if_splits)
qed auto

lemma mkdir_all_lookup_child:
  "fst (mkdir_all k n p) = None \<Longrightarrow> length x \<le> NAME_MAX \<Longrightarrow>
   lookup (snd (mkdir_all k n p)) (p @ [x]) = lookup n (p @ [x])"
proof (induction k n p rule: mkdir_all.induct)
  case (3 k es y ys)
  then show ?case
    by (cases ys) (auto simp: update_conv' split: prod.splits option.splits if_splits)
qed auto

lemma write_file_succeeds:
  "lookup n p = Inr (Dir es) \<Longrightarrow> absent_or_file (lookup n (p @ [x])) \<Longrightarrow>
   \<exists>n'. write_file n (p @ [x]) d = Inr n'"
proof (induction p arbitrary: n)
  case Nil
  then have n: "n = Dir es" by simp
  from Nil(2) have l: "\<not> NAME_MAX < length x"
    unfolding n by (auto simp: absent_or_file_def split: if_splits)
  show ?case
  proof (cases "map_of es x")
    case None
    with n l show ?thesis by simp
  next
    case (Some m)
    with Nil(2) n l obtain c where "m = File c"
      by (cases m) (auto simp: absent_or_file_def)
    with Some n l show ?thesis by simp
  qed
next
  case (Cons y ys)
  show ?case
  proof (cases n)
    case (File c)
    with Cons.prems show ?thesis by simp
  next
    case (Dir fs)
    with Cons.prems obtain m where m: "\<not> NAME_MAX < length y" "map_of fs y = Some m"
      "lookup m ys = Inr (Dir es)" "absent_or_file (lookup m (ys @ [x]))"
      by (auto split: option.splits if_splits)
    from Cons.IH [OF m(3,4)] obtain m' where "write_file m (ys @ [x]) d = Inr m'" by blast
    with Dir m(1,2) show ?thesis by simp
  qed
qed

section \<open>Locations in the storage tree\<close>

lemma real_elem_hd: "real_elem e \<Longrightarrow> e \<noteq> [] \<and> hd e \<noteq> CHR ''/''"
  by (cases e) (auto simp: real_elem_def)

lemma path_elems_Join:
  assumes "es \<noteq> []" and "\<forall>e\<in>set es. real_elem e"
  shows "path_elems (strings_Join es) = es" and "''..'' \<notin> set es"
proof -
  from assms(2) have "\<forall>e\<in>set es. CHR ''/'' \<notin> set e" by (auto simp: real_elem_def)
  with assms(1) have "strings_Split (strings_Join es) CHR ''/'' = es" by (rule Split_Join)
  moreover have "filter (\<lambda>e. e \<noteq> [] \<and> e \<noteq> ''.'') es = es"
    using assms(2) by (intro filter_True) (auto simp: real_elem_def)
  ultimately show "path_elems (strings_Join es) = es" by (simp add: path_elems_def)
  from assms(2) show "''..'' \<notin> set es" by (auto simp: real_elem_def)
qed

lemma Dir_Join:
  assumes "es \<noteq> []" and "\<forall>e\<in>set es. real_elem e" and "CHR ''/'' \<notin> set l"
  shows "filepath_Dir (strings_Join (es @ [l])) = strings_Join es"
proof -
  let ?s = "strings_Join es @ CHR ''/'' # []"
  from assms(2) have ns: "\<forall>e\<in>set es. CHR ''/'' \<notin> set e" by (auto simp: real_elem_def)
  have "rev (strings_Join (es @ [l])) = rev l @ CHR ''/'' # rev (strings_Join es)"
    using assms(1) by (simp add: Join_snoc)
  moreover have "dropWhile (\<lambda>c. c \<noteq> CHR ''/'') (rev l @ CHR ''/'' # rev (strings_Join es)) =
      dropWhile (\<lambda>c. c \<noteq> CHR ''/'') (CHR ''/'' # rev (strings_Join es))"
    by (rule dropWhile_append2) (use assms(3) in auto)
  ultimately have "dropWhile (\<lambda>c. c \<noteq> CHR ''/'') (rev (strings_Join (es @ [l]))) =
      CHR ''/'' # rev (strings_Join es)"
    by simp
  then have d: "filepath_Dir (strings_Join (es @ [l])) = filepath_Clean ?s"
    by (simp add: filepath_Dir_def)
  have "hd es \<in> set es" using assms(1) by simp
  with assms(2) have h: "hd es \<noteq> []" "hd (hd es) \<noteq> CHR ''/''"
    using real_elem_hd by blast+
  have sp: "strings_Split ?s CHR ''/'' = es @ [[]]"
    unfolding Split_append_sep using assms(1) ns by (simp add: Split_Join)
  have f: "foldl (clean_step False) [] (es @ [[]]) = rev es"
    using assms(2) by (simp add: foldl_clean_real) (simp add: clean_step_def)
  have "filepath_Clean ?s = strings_Join (rev (rev es))"
  proof (rule Clean_relative)
    show "hd ?s \<noteq> CHR ''/''" using assms(1) h by (cases es) auto
    show "foldl (clean_step False) [] (strings_Split ?s CHR ''/'') = rev es"
      unfolding sp by (rule f)
    show "rev es \<noteq> []" using assms(1) by simp
    show "hd (rev (rev es)) \<noteq> []" using h by simp
  qed
  with d show ?thesis by simp
qed

lemma set_Join: "set (strings_Join es) \<subseteq> insert CHR ''/'' (\<Union> (set ` set es))"
  by (cases es) auto

lemma length_Join:
  "es \<noteq> [] \<Longrightarrow> sum_list (map (\<lambda>x. Suc (length x)) es) = Suc (length (strings_Join es))"
proof (induction es rule: rev_induct)
  case Nil
  then show ?case by simp
next
  case (snoc e es)
  then show ?case by (cases "es = []") (simp_all add: Join_snoc)
qed

lemma name_error_Join:
  assumes "es \<noteq> []" and "\<forall>e\<in>set es. real_elem e" and "\<forall>e\<in>set es. valid_elem e"
    and "length (strings_Join es) < PATH_MAX"
  shows "name_error (strings_Join es) = None"
proof -
  have "CHR 0x00 \<notin> set (strings_Join es)"
    using set_Join [of es] assms(3) by (auto simp: valid_elem_def)
  moreover have "strings_Join es \<noteq> []"
    using assms(1,2) by (cases es) (auto simp: real_elem_def)
  ultimately show ?thesis using assms(4) by (simp add: name_error_def)
qed

lemma os_Join:
  assumes "es \<noteq> []" and "\<forall>e\<in>set es. real_elem e" and "\<forall>e\<in>set es. valid_elem e"
    and "length (strings_Join es) < PATH_MAX"
  shows "os_Stat fs (strings_Join es) = lookup fs es"
    and "os_MkdirAll fs (strings_Join es) = mkdir_all 0 fs es"
    and "os_WriteFile fs (strings_Join es) d = write_file fs es d"
proof -
  note n = name_error_Join [OF assms]
  have ne: "strings_Join es \<noteq> []"
    using assms(1,2) by (cases es) (auto simp: real_elem_def)
  note pe = path_elems_Join [OF assms(1,2)]
  show "os_Stat fs (strings_Join es) = lookup fs es"
    unfolding os_Stat_def n pe(1) using pe(2) by simp
  show "os_MkdirAll fs (strings_Join es) = mkdir_all 0 fs es"
    unfolding os_MkdirAll_def pe(1) using pe(2) ne by simp
  show "os_WriteFile fs (strings_Join es) d = write_file fs es d"
    unfolding os_WriteFile_def n pe(1) using pe(2) by simp
qed

lemma os_WriteFile_Stat: "os_WriteFile fs name d = Inr fs' \<Longrightarrow> os_Stat fs' name = Inr (File d)"
  by (auto simp: os_WriteFile_def os_Stat_def write_file_lookup split: if_splits option.splits)

text \<open>Where the two storage operations of handlePutCalendar do not fail.\<close>

lemma mkdir_then_write:
  assumes "es \<noteq> []" and "\<forall>e\<in>set es. real_elem e \<and> valid_elem e"
    and "real_elem l" and "valid_elem l"
    and "length (strings_Join (es @ [l])) < PATH_MAX"
    and "absent_or_dir (os_Stat fs (strings_Join es))"
    and "absent_or_file (os_Stat fs (strings_Join (es @ [l])))"
  shows "\<exists>fs1 fs2. os_MkdirAll fs (strings_Join es) = (None, fs1) \<and>
           os_WriteFile fs1 (strings_Join (es @ [l])) d = Inr fs2"
proof -
  have es: "\<forall>e\<in>set es. real_elem e" "\<forall>e\<in>set es. valid_elem e" using assms(2) by auto
  have all: "es @ [l] \<noteq> []" "\<forall>e\<in>set (es @ [l]). real_elem e"
    "\<forall>e\<in>set (es @ [l]). valid_elem e"
    using assms(2,3,4) by auto
  have len: "length (strings_Join es) < PATH_MAX"
    using assms(1,5) by (simp add: Join_snoc)
  note pe = os_Join [OF assms(1) es len] os_Join [OF all assms(5)]
  from assms(6) have a: "absent_or_dir (lookup fs es)" by (simp add: pe)
  have "0 + sum_list (map (\<lambda>x. Suc (length x)) es) < PATH_MAX"
    using assms(1,5) by (simp add: length_Join Join_snoc)
  with a es(2) have m: "fst (mkdir_all 0 fs es) = None" by (rule mkdir_all_succeeds)
  define fs1 where "fs1 = snd (mkdir_all 0 fs es)"
  from m have m': "mkdir_all 0 fs es = (None, fs1)" by (simp add: fs1_def prod_eq_iff)
  from mkdir_all_lookup_dir [OF m] obtain ds where ds: "lookup fs1 es = Inr (Dir ds)"
    by (auto simp: fs1_def)
  have ll: "length l \<le> NAME_MAX" using assms(4) by (simp add: valid_elem_def)
  from assms(7) have "absent_or_file (lookup fs (es @ [l]))" by (simp add: pe)
  then have "absent_or_file (lookup fs1 (es @ [l]))"
    by (simp add: fs1_def mkdir_all_lookup_child [OF m ll])
  from write_file_succeeds [OF ds this] obtain fs2 where "write_file fs1 (es @ [l]) d = Inr fs2"
    by blast
  with m' show ?thesis by (simp add: pe)
qed

section \<open>Writing\<close>

lemma handlePut_204:
  assumes "status (fst (handlePutCalendar c r fs)) = 204"
  shows "\<exists>d. req_body r = Inr d \<and>
           os_Stat (snd (handlePutCalendar c r fs)) (filePath_of (url_path r)) = Inr (File d)"
    and "strings_HasSuffix (url_path r) ''.ics''"
  using assms
  by (auto simp: handlePutCalendar_def Let_def os_WriteFile_Stat
      split: if_splits sum.splits prod.splits option.splits)

lemma calendarHandler_204:
  assumes "req_method r = ''PUT''" and "status (fst (calendarHandler users r fs)) = 204"
  shows "\<exists>u. calendarHandler users r fs = handlePutCalendar (Some u) r fs"
proof (cases "authenticated users r")
  case True
  then obtain u p where "basic_auth r = Some (u, p)" "users u = Some p"
    by (auto simp: authenticated_def split: option.splits)
  with assms(1) show ?thesis by (auto simp: calendarHandler_put)
next
  case False
  then have "calendarHandler users r fs = (unauthorized, fs)"
    using assms(1) by (simp add: calendarHandler_def authMiddleware_reject)
  with assms(2) show ?thesis by (simp add: status_unauthorized)
qed

lemma stored_after_put:
  assumes "req_method r = ''PUT''" and "status (fst (calendarHandler users r fs)) = 204"
    and "req_body r = Inr d"
  shows "os_Stat (snd (calendarHandler users r fs)) (filePath_of (url_path r)) = Inr (File d)"
    and "strings_HasSuffix (url_path r) ''.ics''"
proof -
  from calendarHandler_204 [OF assms(1,2)] obtain u
    where u: "calendarHandler users r fs = handlePutCalendar (Some u) r fs" by blast
  with assms(2) have s: "status (fst (handlePutCalendar (Some u) r fs)) = 204" by simp
  from handlePut_204 [OF s] assms(3) u
  show "os_Stat (snd (calendarHandler users r fs)) (filePath_of (url_path r)) = Inr (File d)"
    and "strings_HasSuffix (url_path r) ''.ics''" by auto
qed

text \<open>
  A write that succeeded is read back by a \<^verbatim>\<open>GET\<close> of the same path that
  http.ServeFile accepts.
\<close>

lemma read_after_write:
  assumes "req_method r = ''PUT''" and "status (fst (calendarHandler users r fs)) = 204"
    and "req_body r = Inr d" and "\<not> containsDotDot (url_path r)"
    and "utf8_ValidString (file_part (filePath_of (url_path r)))"
    and "req_method g = ''GET''" and "url_path g = url_path r" and "req_conditional g = None"
  shows "calendarHandler users' g (snd (calendarHandler users r fs)) =
      (served d, snd (calendarHandler users r fs))"
proof -
  note st = stored_after_put [OF assms(1-3)]
  have "handleGetCalendar g (snd (calendarHandler users r fs)) =
      (served d, snd (calendarHandler users r fs))"
    by (rule handleGet_file) (use assms(4,5,7,8) st in simp_all)
  with assms(6) show ?thesis by (simp add: calendarHandler_def)
qed

text \<open>A \<^verbatim>\<open>GET\<close> of a path with a \<^verbatim>\<open>..\<close> element is refused after the write as well.\<close>

lemma refused_after_write:
  assumes "req_method r = ''PUT''" and "status (fst (calendarHandler users r fs)) = 204"
    and "req_body r = Inr d" and "containsDotDot (url_path r)"
    and "req_method g = ''GET''" and "url_path g = url_path r"
  shows "status (fst (calendarHandler users' g (snd (calendarHandler users r fs)))) = 400"
proof -
  note st = stored_after_put [OF assms(1-3)]
  have "status (fst (handleGetCalendar g (snd (calendarHandler users r fs)))) = 400"
    by (rule handleGet_dotdot) (use assms(4,6) st in \<open>simp_all add: os_IsNotExist_def\<close>)
  with assms(5) show ?thesis by (simp add: calendarHandler_def)
qed

section \<open>The path of a calendar\<close>

lemma calendar_path_suffix: "strings_HasSuffix (calendar_path U N) ''.ics''"
  by (simp add: calendar_path_def strings_HasSuffix_def)

lemma calendar_path_hd: "hd (calendar_path U N) = CHR ''/''"
  by (simp add: calendar_path_def)

lemma ics_elem: "CHR ''/'' \<notin> set N \<Longrightarrow> real_elem (N @ ''.ics'')"
  by (rule real_elem_ics)

lemma calendar_path_Split:
  assumes "real_elem U" and "CHR ''/'' \<notin> set N"
  shows "strings_Split (calendar_path U N) CHR ''/'' = [[], U, N @ ''.ics'']"
proof -
  have "calendar_path U N = [] @ CHR ''/'' # (U @ CHR ''/'' # (N @ ''.ics''))"
    by (simp add: calendar_path_def)
  then show ?thesis
    unfolding Split_append_sep
    using assms by (simp add: Split_append_sep Split_nosep real_elem_def)
qed

lemma calendar_path_parts:
  assumes "real_elem U" and "CHR ''/'' \<notin> set N"
  shows "strings_Split (strings_Trim (calendar_path U N) ''/'') CHR ''/'' = [U, N @ ''.ics'']"
proof -
  from assms(1) obtain c cs where U: "U = c # cs" "c \<noteq> CHR ''/''"
    by (cases U) (auto simp: real_elem_def)
  have "strings_Trim (calendar_path U N) ''/'' = U @ CHR ''/'' # (N @ ''.ics'')"
    by (simp add: calendar_path_def strings_Trim_def U)
  then show ?thesis
    using assms by (simp add: Split_append_sep Split_nosep real_elem_def)
qed

lemma calendar_path_clean:
  assumes "real_elem U" and "CHR ''/'' \<notin> set N"
  shows "clean_elems (calendar_path U N) = [U, N @ ''.ics'']"
proof -
  have r: "(calendar_path U N \<noteq> [] \<and> hd (calendar_path U N) = CHR ''/'') = True"
    by (simp add: calendar_path_def)
  have "\<forall>e\<in>set [U, N @ ''.ics'']. real_elem e"
    using assms(1) ics_elem [OF assms(2)] by simp
  then have "foldl (clean_step True) [] [U, N @ ''.ics''] = rev [U, N @ ''.ics''] @ []"
    by (rule foldl_clean_real)
  moreover have "foldl (clean_step True) [] [[], U, N @ ''.ics''] =
      foldl (clean_step True) [] [U, N @ ''.ics'']"
    by (simp add: clean_step_def)
  ultimately show ?thesis
    unfolding clean_elems_def r calendar_path_Split [OF assms] by simp
qed

lemma calendar_path_file:
  assumes "real_elem U" and "CHR ''/'' \<notin> set N"
  shows "filePath_of (calendar_path U N) = calendar_file U N"
    and "filepath_Dir (filePath_of (calendar_path U N)) = owner_dir U"
proof -
  have f: "filePath_of (calendar_path U N) = strings_Join ([dataDir, U] @ [N @ ''.ics''])"
    using filePath_of_rooted [OF calendar_path_suffix calendar_path_hd, of U N]
    by (simp add: calendar_path_clean [OF assms])
  then show "filePath_of (calendar_path U N) = calendar_file U N"
    by (simp add: calendar_file_def)
  have "filepath_Dir (strings_Join ([dataDir, U] @ [N @ ''.ics''])) = strings_Join [dataDir, U]"
    by (rule Dir_Join) (use assms dataDir_facts in auto)
  then show "filepath_Dir (filePath_of (calendar_path U N)) = owner_dir U"
    unfolding f by (simp add: owner_dir_def)
qed

lemma calendar_file_part:
  assumes "CHR ''/'' \<notin> set N"
  shows "file_part (calendar_file U N) = N @ ''.ics''"
proof -
  define L where "L = N @ ''.ics''"
  define R where "R = rev (dataDir @ ''/'' @ U)"
  have nl: "\<forall>c\<in>set (rev L). c \<noteq> CHR ''/''" using assms by (auto simp: L_def)
  have r: "rev (calendar_file U N) = rev L @ CHR ''/'' # R"
    by (simp add: calendar_file_def L_def R_def)
  have t1: "takeWhile (\<lambda>c. c \<noteq> CHR ''/'') (rev L @ CHR ''/'' # R) =
      takeWhile (\<lambda>c. c \<noteq> CHR ''/'') (rev L)"
    by (rule takeWhile_tail) simp
  have t2: "takeWhile (\<lambda>c. c \<noteq> CHR ''/'') (rev L) = rev L"
    using nl by (simp only: takeWhile_eq_all_conv)
  show ?thesis
    unfolding file_part_def r t1 t2 by (simp add: L_def)
qed

lemma calendar_file_length:
  assumes "valid_elem U" and "valid_elem (N @ ''.ics'')"
  shows "length (strings_Join ([dataDir, U] @ [N @ ''.ics''])) < PATH_MAX"
  using assms by (simp add: valid_elem_def dataDir_def NAME_MAX_def PATH_MAX_def)

section \<open>Writing and reading back\<close>

text \<open>
  Claim C3, as amended. The claim promises success of every \<^verbatim>\<open>PUT\<close> of a user to
  a calendar of their own and a \<^verbatim>\<open>GET\<close> that returns the payload.
  handlePutCalendar answers 500 when the directory cannot be made or the file cannot be
  written, which depends on the storage and on the names, and http.ServeFile refuses a path
  with a \<^verbatim>\<open>..\<close> element. What holds: for a user name of the users map that is a
  real path element without a colon, a calendar name without a slash and any payload, when
  \<^item> the user name and the file name are names of entries (no NUL byte, at most
    \<^verbatim>\<open>NAME_MAX\<close> bytes) and the file name is valid UTF-8,
  \<^item> the path has no \<^verbatim>\<open>..\<close> element between slashes or backslashes,
  \<^item> the storage holds nothing or a directory at the directory of the owner and nothing
    or a regular file at the file of the calendar,

  the \<^verbatim>\<open>PUT\<close> with the password of the user is answered 204, and a following
  \<^verbatim>\<open>GET\<close> of the same path without \<^verbatim>\<open>Range\<close> and conditional
  headers, with any credentials, is answered 200 with exactly the payload.
\<close>

theorem put_then_get:
  assumes "users U = Some pw" and "real_elem U" and "CHR '':'' \<notin> set U"
    and "CHR ''/'' \<notin> set N"
    and "valid_elem U" and "valid_elem (N @ ''.ics'')" and "utf8_ValidString (N @ ''.ics'')"
    and "\<not> containsDotDot (calendar_path U N)"
    and "absent_or_dir (os_Stat fs (owner_dir U))"
    and "absent_or_file (os_Stat fs (calendar_file U N))"
  shows "fst (calendarHandler users
            \<lparr>req_method = ''PUT'', url_path = calendar_path U N, basic_auth = Some (U, pw),
             req_body = Inr D, req_conditional = c\<rparr> fs) =
           \<lparr>status = 204, headers = Map.empty, resp_body = []\<rparr> \<and>
         calendarHandler users'
            \<lparr>req_method = ''GET'', url_path = calendar_path U N, basic_auth = a, req_body = b,
             req_conditional = None\<rparr>
            (snd (calendarHandler users
               \<lparr>req_method = ''PUT'', url_path = calendar_path U N, basic_auth = Some (U, pw),
                req_body = Inr D, req_conditional = c\<rparr> fs)) =
           (served D,
            snd (calendarHandler users
               \<lparr>req_method = ''PUT'', url_path = calendar_path U N, basic_auth = Some (U, pw),
                req_body = Inr D, req_conditional = c\<rparr> fs))"
proof -
  let ?put = "\<lparr>req_method = ''PUT'', url_path = calendar_path U N, basic_auth = Some (U, pw),
             req_body = Inr D, req_conditional = c\<rparr>"
  let ?get = "\<lparr>req_method = ''GET'', url_path = calendar_path U N, basic_auth = a,
             req_body = b, req_conditional = None\<rparr>"
  note loc = calendar_path_file [OF assms(2,4)]
  have h: "calendarHandler users ?put fs = handlePutCalendar (Some U) ?put fs"
    by (rule calendarHandler_put) (use assms(1) in simp_all)
  have j: "strings_Join [dataDir, U] = owner_dir U"
    "strings_Join ([dataDir, U] @ [N @ ''.ics'']) = calendar_file U N"
    by (simp_all add: owner_dir_def calendar_file_def)
  have "\<exists>fs1 fs2. os_MkdirAll fs (strings_Join [dataDir, U]) = (None, fs1) \<and>
      os_WriteFile fs1 (strings_Join ([dataDir, U] @ [N @ ''.ics''])) D = Inr fs2"
  proof (rule mkdir_then_write)
    show "\<forall>e\<in>set [dataDir, U]. real_elem e \<and> valid_elem e"
      using assms(2,5) dataDir_facts(4)
      by (simp add: valid_elem_def dataDir_def NAME_MAX_def)
    show "real_elem (N @ ''.ics'')" using assms(4) by (rule ics_elem)
    show "valid_elem (N @ ''.ics'')" by (rule assms(6))
    show "length (strings_Join ([dataDir, U] @ [N @ ''.ics''])) < PATH_MAX"
      using assms(5,6) by (rule calendar_file_length)
    show "absent_or_dir (os_Stat fs (strings_Join [dataDir, U]))"
      unfolding j by (rule assms(9))
    show "absent_or_file (os_Stat fs (strings_Join ([dataDir, U] @ [N @ ''.ics''])))"
      unfolding j by (rule assms(10))
  qed simp
  then obtain fs1 fs2 where "os_MkdirAll fs (owner_dir U) = (None, fs1)"
    and "os_WriteFile fs1 (calendar_file U N) D = Inr fs2"
    unfolding j by blast
  then have "fst (handlePutCalendar (Some U) ?put fs) =
      \<lparr>status = 204, headers = Map.empty, resp_body = []\<rparr>"
    by (simp add: handlePutCalendar_def Let_def calendar_path_suffix
        calendar_path_parts [OF assms(2,4)] loc(1) loc(2) [unfolded loc(1)])
  with h have 1: "fst (calendarHandler users ?put fs) =
      \<lparr>status = 204, headers = Map.empty, resp_body = []\<rparr>" by simp
  then have s: "status (fst (calendarHandler users ?put fs)) = 204" by simp
  have u: "utf8_ValidString (file_part (filePath_of (url_path ?put)))"
    using assms(7) by (simp add: loc calendar_file_part [OF assms(4)])
  have 2: "calendarHandler users' ?get (snd (calendarHandler users ?put fs)) =
      (served D, snd (calendarHandler users ?put fs))"
    by (rule read_after_write [OF _ s _ _ u]) (use assms(8) in simp_all)
  from 1 2 show ?thesis by (rule conjI)
qed

lemmas eval_defs = calendarHandler_def authMiddleware_def handlePutCalendar_def
  handleGetCalendar_def http_ServeFile_def containsDotDot_def strings_FieldsFunc_def
  isSlashRune_def file_part_def utf8_ValidString_def
  filePath_of_def dataDir_def filepath_Join_def filepath_Clean_def clean_elems_def
  clean_step_def filepath_Dir_def path_elems_def strings_Trim_def strings_HasSuffix_def
  os_Stat_def os_MkdirAll_def os_WriteFile_def os_IsNotExist_def
  name_error_def prefix_len_def PATH_MAX_def NAME_MAX_def
  calendar_path_def calendar_file_def owner_dir_def
  example_users_def example_storage_def

theorem put_then_get_witness:
  "example_users ''alice'' = Some ''s3cr3t'' \<and> real_elem ''alice'' \<and>
   CHR '':'' \<notin> set ''alice'' \<and> CHR ''/'' \<notin> set ''work'' \<and>
   valid_elem ''alice'' \<and> valid_elem (''work'' @ ''.ics'') \<and>
   utf8_ValidString (''work'' @ ''.ics'') \<and>
   \<not> containsDotDot (calendar_path ''alice'' ''work'') \<and>
   absent_or_dir (os_Stat example_storage (owner_dir ''alice'')) \<and>
   absent_or_file (os_Stat example_storage (calendar_file ''alice'' ''work'')) \<and>
   fst (calendarHandler example_users
          \<lparr>req_method = ''PUT'', url_path = calendar_path ''alice'' ''work'',
           basic_auth = Some (''alice'', ''s3cr3t''), req_body = Inr ''X'',
           req_conditional = None\<rparr> example_storage) =
     \<lparr>status = 204, headers = Map.empty, resp_body = []\<rparr> \<and>
   calendarHandler example_users
     \<lparr>req_method = ''GET'', url_path = calendar_path ''alice'' ''work'', basic_auth = None,
      req_body = Inr [], req_conditional = None\<rparr>
     (snd (calendarHandler example_users
          \<lparr>req_method = ''PUT'', url_path = calendar_path ''alice'' ''work'',
           basic_auth = Some (''alice'', ''s3cr3t''), req_body = Inr ''X'',
           req_conditional = None\<rparr> example_storage)) =
     (served ''X'',
      snd (calendarHandler example_users
          \<lparr>req_method = ''PUT'', url_path = calendar_path ''alice'' ''work'',
           basic_auth = Some (''alice'', ''s3cr3t''), req_body = Inr ''X'',
           req_conditional = None\<rparr> example_storage))"
proof -
  have 1: "example_users ''alice'' = Some ''s3cr3t''" by (simp add: example_users_def)
  have 2: "real_elem ''alice''" by (simp add: real_elem_def)
  have 3: "CHR '':'' \<notin> set ''alice''" "CHR ''/'' \<notin> set ''work''" by simp_all
  have 4: "valid_elem ''alice''" "valid_elem (''work'' @ ''.ics'')"
    by (simp_all add: valid_elem_def NAME_MAX_def)
  have 5: "utf8_ValidString (''work'' @ ''.ics'')" by (simp add: utf8_ValidString_def)
  have 6: "\<not> containsDotDot (calendar_path ''alice'' ''work'')"
    by (simp add: containsDotDot_def strings_FieldsFunc_def isSlashRune_def calendar_path_def)
  have 7: "absent_or_dir (os_Stat example_storage (owner_dir ''alice''))"
    by (simp add: absent_or_dir_def os_Stat_def name_error_def path_elems_def owner_dir_def
        dataDir_def example_storage_def PATH_MAX_def NAME_MAX_def)
  have 8: "absent_or_file (os_Stat example_storage (calendar_file ''alice'' ''work''))"
    by (simp add: absent_or_file_def os_Stat_def name_error_def path_elems_def
        calendar_file_def dataDir_def example_storage_def PATH_MAX_def NAME_MAX_def)
  from 1 2 3 4 5 6 7 8
    put_then_get [of example_users "''alice''" "''s3cr3t''" "''work''" example_storage
      "''X''" None example_users None "Inr []"]
  show ?thesis by blast
qed

theorem put_fails_or_get_refused:
  "status (fst (calendarHandler example_users
          \<lparr>req_method = ''PUT'', url_path = ''/alice/a.ics/b.ics'',
           basic_auth = Some (''alice'', ''s3cr3t''), req_body = Inr ''X'',
           req_conditional = None\<rparr> example_storage)) = 204 \<and>
   status (fst (calendarHandler example_users
          \<lparr>req_method = ''PUT'', url_path = calendar_path ''alice'' ''a'',
           basic_auth = Some (''alice'', ''s3cr3t''), req_body = Inr ''Y'',
           req_conditional = None\<rparr>
          (snd (calendarHandler example_users
             \<lparr>req_method = ''PUT'', url_path = ''/alice/a.ics/b.ics'',
              basic_auth = Some (''alice'', ''s3cr3t''), req_body = Inr ''X'',
              req_conditional = None\<rparr> example_storage)))) = 500 \<and>
   status (fst (calendarHandler example_users
          \<lparr>req_method = ''PUT'', url_path = calendar_path ''alice'' [CHR ''a'', CHR 0x00],
           basic_auth = Some (''alice'', ''s3cr3t''), req_body = Inr ''X'',
           req_conditional = None\<rparr> example_storage)) = 500 \<and>
   status (fst (calendarHandler example_users
          \<lparr>req_method = ''PUT'', url_path = calendar_path ''alice'' (replicate 252 CHR ''a''),
           basic_auth = Some (''alice'', ''s3cr3t''), req_body = Inr ''X'',
           req_conditional = None\<rparr> example_storage)) = 500 \<and>
   status (fst (calendarHandler example_users
          \<lparr>req_method = ''PUT'', url_path = calendar_path ''alice'' (''..'' @ [CHR 0x5C] @ ''x''),
           basic_auth = Some (''alice'', ''s3cr3t''), req_body = Inr ''X'',
           req_conditional = None\<rparr> example_storage)) = 204 \<and>
   status (fst (calendarHandler example_users
          \<lparr>req_method = ''GET'', url_path = calendar_path ''alice'' (''..'' @ [CHR 0x5C] @ ''x''),
           basic_auth = None, req_body = Inr [], req_conditional = None\<rparr>
          (snd (calendarHandler example_users
             \<lparr>req_method = ''PUT'',
              url_path = calendar_path ''alice'' (''..'' @ [CHR 0x5C] @ ''x''),
              basic_auth = Some (''alice'', ''s3cr3t''), req_body = Inr ''X'',
              req_conditional = None\<rparr> example_storage)))) = 400"
proof -
  have long: "status (fst (calendarHandler example_users
          \<lparr>req_method = ''PUT'', url_path = calendar_path ''alice'' (replicate 252 CHR ''a''),
           basic_auth = Some (''alice'', ''s3cr3t''), req_body = Inr ''X'',
           req_conditional = None\<rparr> example_storage)) = 500"
    by code_simp
  show ?thesis
    unfolding long by (simp add: eval_defs)
qed

text \<open>
  Claim C5, as amended. When the file of a calendar holds a document and a \<^verbatim>\<open>PUT\<close>
  to the path of the calendar with another payload succeeds (status 204), the file holds
  exactly the new payload: nothing of the old document is left. A following
  \<^verbatim>\<open>GET\<close> of the path without \<^verbatim>\<open>Range\<close> and conditional headers
  is answered 200 with exactly the new payload when the path has no \<^verbatim>\<open>..\<close>
  element (between slashes or backslashes) and the name of the file is valid UTF-8; it is
  answered 400, not with the payload as the claim says, when the path has such an element.
\<close>

theorem put_replaces_document:
  assumes "os_Stat fs (filePath_of (calendar_path U N)) = Inr (File C1)"
    and "req_method r = ''PUT''" and "url_path r = calendar_path U N"
    and "req_body r = Inr C2"
    and "status (fst (calendarHandler users r fs)) = 204"
  shows "os_Stat (snd (calendarHandler users r fs)) (filePath_of (calendar_path U N)) =
           Inr (File C2) \<and>
         (\<not> containsDotDot (calendar_path U N) \<and>
          utf8_ValidString (file_part (filePath_of (calendar_path U N))) \<longrightarrow>
            calendarHandler users'
              \<lparr>req_method = ''GET'', url_path = calendar_path U N, basic_auth = a,
               req_body = b, req_conditional = None\<rparr>
              (snd (calendarHandler users r fs)) =
              (served C2, snd (calendarHandler users r fs))) \<and>
         (containsDotDot (calendar_path U N) \<longrightarrow>
            status (fst (calendarHandler users'
              \<lparr>req_method = ''GET'', url_path = calendar_path U N, basic_auth = a,
               req_body = b, req_conditional = c\<rparr>
              (snd (calendarHandler users r fs)))) = 400)"
proof (intro conjI impI)
  show "os_Stat (snd (calendarHandler users r fs)) (filePath_of (calendar_path U N)) =
      Inr (File C2)"
    using stored_after_put(1) [OF assms(2,5,4)] by (simp add: assms(3))
next
  assume "\<not> containsDotDot (calendar_path U N) \<and>
    utf8_ValidString (file_part (filePath_of (calendar_path U N)))"
  then show "calendarHandler users'
      \<lparr>req_method = ''GET'', url_path = calendar_path U N, basic_auth = a,
       req_body = b, req_conditional = None\<rparr>
      (snd (calendarHandler users r fs)) = (served C2, snd (calendarHandler users r fs))"
    by (intro read_after_write [OF assms(2,5,4)]) (simp_all add: assms(3))
next
  assume "containsDotDot (calendar_path U N)"
  then show "status (fst (calendarHandler users'
      \<lparr>req_method = ''GET'', url_path = calendar_path U N, basic_auth = a,
       req_body = b, req_conditional = c\<rparr>
      (snd (calendarHandler users r fs)))) = 400"
    by (intro refused_after_write [OF assms(2,5,4)]) (simp_all add: assms(3))
qed

theorem put_replaces_document_witness:
  "os_Stat (Dir [(''calendars'', Dir [(''alice'', Dir [(''work.ics'', File ''A'')])])])
     (filePath_of (calendar_path ''alice'' ''work'')) = Inr (File ''A'') \<and>
   status (fst (calendarHandler example_users
     \<lparr>req_method = ''PUT'', url_path = calendar_path ''alice'' ''work'',
      basic_auth = Some (''alice'', ''s3cr3t''), req_body = Inr ''B'', req_conditional = None\<rparr>
     (Dir [(''calendars'', Dir [(''alice'', Dir [(''work.ics'', File ''A'')])])]))) = 204 \<and>
   \<not> containsDotDot (calendar_path ''alice'' ''work'') \<and>
   utf8_ValidString (file_part (filePath_of (calendar_path ''alice'' ''work''))) \<and>
   os_Stat (snd (calendarHandler example_users
     \<lparr>req_method = ''PUT'', url_path = calendar_path ''alice'' ''work'',
      basic_auth = Some (''alice'', ''s3cr3t''), req_body = Inr ''B'', req_conditional = None\<rparr>
     (Dir [(''calendars'', Dir [(''alice'', Dir [(''work.ics'', File ''A'')])])])))
     (filePath_of (calendar_path ''alice'' ''work'')) = Inr (File ''B'') \<and>
   calendarHandler example_users
     \<lparr>req_method = ''GET'', url_path = calendar_path ''alice'' ''work'', basic_auth = None,
      req_body = Inr [], req_conditional = None\<rparr>
     (snd (calendarHandler example_users
       \<lparr>req_method = ''PUT'', url_path = calendar_path ''alice'' ''work'',
        basic_auth = Some (''alice'', ''s3cr3t''), req_body = Inr ''B'',
        req_conditional = None\<rparr>
       (Dir [(''calendars'', Dir [(''alice'', Dir [(''work.ics'', File ''A'')])])]))) =
     (served ''B'',
      snd (calendarHandler example_users
       \<lparr>req_method = ''PUT'', url_path = calendar_path ''alice'' ''work'',
        basic_auth = Some (''alice'', ''s3cr3t''), req_body = Inr ''B'',
        req_conditional = None\<rparr>
       (Dir [(''calendars'', Dir [(''alice'', Dir [(''work.ics'', File ''A'')])])])))"
proof -
  let ?fs = "Dir [(''calendars'', Dir [(''alice'', Dir [(''work.ics'', File ''A'')])])]"
  let ?r = "\<lparr>req_method = ''PUT'', url_path = calendar_path ''alice'' ''work'',
      basic_auth = Some (''alice'', ''s3cr3t''), req_body = Inr ''B'', req_conditional = None\<rparr>"
  have f: "filePath_of (calendar_path ''alice'' ''work'') = ''calendars/alice/work.ics''"
    by (simp add: calendar_path_def filePath_of_def dataDir_def filepath_Join_def
        filepath_Clean_def clean_elems_def clean_step_def)
  have 1: "os_Stat ?fs (filePath_of (calendar_path ''alice'' ''work'')) = Inr (File ''A'')"
    by (simp add: f os_Stat_def name_error_def path_elems_def PATH_MAX_def NAME_MAX_def)
  have 2: "req_method ?r = ''PUT''" "url_path ?r = calendar_path ''alice'' ''work''"
    "req_body ?r = Inr ''B''" by simp_all
  have 3: "status (fst (calendarHandler example_users ?r ?fs)) = 204"
    by (simp add: eval_defs)
  have 4: "\<not> containsDotDot (calendar_path ''alice'' ''work'')"
    by (simp add: containsDotDot_def strings_FieldsFunc_def isSlashRune_def calendar_path_def)
  have 5: "utf8_ValidString (file_part (filePath_of (calendar_path ''alice'' ''work'')))"
    by (simp add: f file_part_def utf8_ValidString_def)
  from 1 3 4 5
    put_replaces_document [OF 1 2 3, of example_users None "Inr []" None]
  show ?thesis by blast
qed

theorem get_after_replace_refused:
  "os_Stat (Dir [(''calendars'', Dir [(''alice'',
       Dir [(''..'' @ [CHR 0x5C] @ ''x.ics'', File ''A'')])])])
     (filePath_of (calendar_path ''alice'' (''..'' @ [CHR 0x5C] @ ''x''))) = Inr (File ''A'') \<and>
   status (fst (calendarHandler example_users
     \<lparr>req_method = ''PUT'', url_path = calendar_path ''alice'' (''..'' @ [CHR 0x5C] @ ''x''),
      basic_auth = Some (''alice'', ''s3cr3t''), req_body = Inr ''B'', req_conditional = None\<rparr>
     (Dir [(''calendars'', Dir [(''alice'',
        Dir [(''..'' @ [CHR 0x5C] @ ''x.ics'', File ''A'')])])]))) = 204 \<and>
   status (fst (calendarHandler example_users
     \<lparr>req_method = ''GET'', url_path = calendar_path ''alice'' (''..'' @ [CHR 0x5C] @ ''x''),
      basic_auth = None, req_body = Inr [], req_conditional = None\<rparr>
     (snd (calendarHandler example_users
       \<lparr>req_method = ''PUT'',
        url_path = calendar_path ''alice'' (''..'' @ [CHR 0x5C] @ ''x''),
        basic_auth = Some (''alice'', ''s3cr3t''), req_body = Inr ''B'',
        req_conditional = None\<rparr>
       (Dir [(''calendars'', Dir [(''alice'',
          Dir [(''..'' @ [CHR 0x5C] @ ''x.ics'', File ''A'')])])]))))) = 400"
  by (simp add: eval_defs)

section \<open>Side effects\<close>

text \<open>
  Claim C9, as amended. No \<^verbatim>\<open>GET\<close>, no request with another method than
  \<^verbatim>\<open>GET\<close> and \<^verbatim>\<open>PUT\<close>, and no \<^verbatim>\<open>PUT\<close> that is not
  authenticated changes the storage. A write completed by a \<^verbatim>\<open>PUT\<close> (status 204)
  is in the storage at once. A following \<^verbatim>\<open>GET\<close> of the same path without
  \<^verbatim>\<open>Range\<close> and conditional headers returns it when the path has no
  \<^verbatim>\<open>..\<close> element (between slashes or backslashes) and the name of the file is
  valid UTF-8; the claim says so for every path, but http.ServeFile answers 400 to a path
  with a \<^verbatim>\<open>..\<close> element.
\<close>

theorem side_effects_confined:
  "(req_method r = ''GET'' \<longrightarrow> snd (calendarHandler users r fs) = fs) \<and>
   (req_method r \<noteq> ''GET'' \<and> req_method r \<noteq> ''PUT'' \<longrightarrow>
      snd (calendarHandler users r fs) = fs) \<and>
   (req_method r = ''PUT'' \<and> \<not> authenticated users r \<longrightarrow>
      snd (calendarHandler users r fs) = fs) \<and>
   (req_method r = ''PUT'' \<and> status (fst (calendarHandler users r fs)) = 204 \<and>
    req_body r = Inr d \<longrightarrow>
      os_Stat (snd (calendarHandler users r fs)) (filePath_of (url_path r)) = Inr (File d)) \<and>
   (req_method r = ''PUT'' \<and> status (fst (calendarHandler users r fs)) = 204 \<and>
    req_body r = Inr d \<and> \<not> containsDotDot (url_path r) \<and>
    utf8_ValidString (file_part (filePath_of (url_path r))) \<and>
    req_method g = ''GET'' \<and> url_path g = url_path r \<and> req_conditional g = None \<longrightarrow>
      calendarHandler users g (snd (calendarHandler users r fs)) =
        (served d, snd (calendarHandler users r fs))) \<and>
   (req_method r = ''PUT'' \<and> status (fst (calendarHandler users r fs)) = 204 \<and>
    req_body r = Inr d \<and> containsDotDot (url_path r) \<and>
    req_method g = ''GET'' \<and> url_path g = url_path r \<longrightarrow>
      status (fst (calendarHandler users g (snd (calendarHandler users r fs)))) = 400)"
proof (intro conjI impI)
  assume "req_method r = ''GET''"
  then show "snd (calendarHandler users r fs) = fs" by (simp add: calendarHandler_def)
next
  assume "req_method r \<noteq> ''GET'' \<and> req_method r \<noteq> ''PUT''"
  then show "snd (calendarHandler users r fs) = fs" by (simp add: calendarHandler_def)
next
  assume "req_method r = ''PUT'' \<and> \<not> authenticated users r"
  then show "snd (calendarHandler users r fs) = fs"
    by (simp add: calendarHandler_def authMiddleware_reject)
next
  assume "req_method r = ''PUT'' \<and> status (fst (calendarHandler users r fs)) = 204 \<and>
    req_body r = Inr d"
  then show "os_Stat (snd (calendarHandler users r fs)) (filePath_of (url_path r)) =
      Inr (File d)"
    by (intro stored_after_put(1)) simp_all
next
  assume "req_method r = ''PUT'' \<and> status (fst (calendarHandler users r fs)) = 204 \<and>
    req_body r = Inr d \<and> \<not> containsDotDot (url_path r) \<and>
    utf8_ValidString (file_part (filePath_of (url_path r))) \<and>
    req_method g = ''GET'' \<and> url_path g = url_path r \<and> req_conditional g = None"
  then show "calendarHandler users g (snd (calendarHandler users r fs)) =
        (served d, snd (calendarHandler users r fs))"
    by (intro read_after_write) simp_all
next
  assume "req_method r = ''PUT'' \<and> status (fst (calendarHandler users r fs)) = 204 \<and>
    req_body r = Inr d \<and> containsDotDot (url_path r) \<and>
    req_method g = ''GET'' \<and> url_path g = url_path r"
  then show "status (fst (calendarHandler users g (snd (calendarHandler users r fs)))) = 400"
    by (intro refused_after_write [where d = d]) simp_all
qed

theorem side_effects_confined_witness:
  "snd (calendarHandler example_users
      \<lparr>req_method = ''GET'', url_path = ''/alice/work.ics'', basic_auth = None,
       req_body = Inr [], req_conditional = None\<rparr> example_storage) = example_storage \<and>
   snd (calendarHandler example_users
      \<lparr>req_method = ''DELETE'', url_path = ''/alice/work.ics'',
       basic_auth = Some (''alice'', ''s3cr3t''), req_body = Inr [],
       req_conditional = None\<rparr> example_storage) = example_storage \<and>
   \<not> authenticated example_users
      \<lparr>req_method = ''PUT'', url_path = ''/alice/work.ics'',
       basic_auth = Some (''alice'', ''guess''), req_body = Inr ''X'',
       req_conditional = None\<rparr> \<and>
   snd (calendarHandler example_users
      \<lparr>req_method = ''PUT'', url_path = ''/alice/work.ics'',
       basic_auth = Some (''alice'', ''guess''), req_body = Inr ''X'',
       req_conditional = None\<rparr> example_storage) = example_storage \<and>
   status (fst (calendarHandler example_users
      \<lparr>req_method = ''PUT'', url_path = ''/alice/work.ics'',
       basic_auth = Some (''alice'', ''s3cr3t''), req_body = Inr ''X'',
       req_conditional = None\<rparr> example_storage)) = 204 \<and>
   \<not> containsDotDot ''/alice/work.ics'' \<and>
   utf8_ValidString (file_part (filePath_of ''/alice/work.ics'')) \<and>
   os_Stat (snd (calendarHandler example_users
         \<lparr>req_method = ''PUT'', url_path = ''/alice/work.ics'',
          basic_auth = Some (''alice'', ''s3cr3t''), req_body = Inr ''X'',
          req_conditional = None\<rparr> example_storage))
     (filePath_of ''/alice/work.ics'') = Inr (File ''X'') \<and>
   calendarHandler example_users
      \<lparr>req_method = ''GET'', url_path = ''/alice/work.ics'', basic_auth = None,
       req_body = Inr [], req_conditional = None\<rparr>
      (snd (calendarHandler example_users
         \<lparr>req_method = ''PUT'', url_path = ''/alice/work.ics'',
          basic_auth = Some (''alice'', ''s3cr3t''), req_body = Inr ''X'',
          req_conditional = None\<rparr> example_storage)) =
     (served ''X'',
      snd (calendarHandler example_users
         \<lparr>req_method = ''PUT'', url_path = ''/alice/work.ics'',
          basic_auth = Some (''alice'', ''s3cr3t''), req_body = Inr ''X'',
          req_conditional = None\<rparr> example_storage))"
proof -
  let ?get = "\<lparr>req_method = ''GET'', url_path = ''/alice/work.ics'', basic_auth = None,
       req_body = Inr [], req_conditional = None\<rparr>"
  let ?del = "\<lparr>req_method = ''DELETE'', url_path = ''/alice/work.ics'',
       basic_auth = Some (''alice'', ''s3cr3t''), req_body = Inr [], req_conditional = None\<rparr>"
  let ?bad = "\<lparr>req_method = ''PUT'', url_path = ''/alice/work.ics'',
       basic_auth = Some (''alice'', ''guess''), req_body = Inr ''X'', req_conditional = None\<rparr>"
  let ?put = "\<lparr>req_method = ''PUT'', url_path = ''/alice/work.ics'',
       basic_auth = Some (''alice'', ''s3cr3t''), req_body = Inr ''X'', req_conditional = None\<rparr>"
  have a: "\<not> authenticated example_users ?bad"
    by (simp add: authenticated_def example_users_def)
  have s: "status (fst (calendarHandler example_users ?put example_storage)) = 204"
    by (simp add: eval_defs)
  have n: "\<not> containsDotDot ''/alice/work.ics''"
    by (simp add: containsDotDot_def strings_FieldsFunc_def isSlashRune_def)
  have u: "utf8_ValidString (file_part (filePath_of ''/alice/work.ics''))"
    by (simp add: filePath_of_def dataDir_def filepath_Join_def filepath_Clean_def
        clean_elems_def clean_step_def file_part_def utf8_ValidString_def)
  have 1: "snd (calendarHandler example_users ?get example_storage) = example_storage"
    using side_effects_confined [of ?get example_users example_storage] by simp
  have 2: "snd (calendarHandler example_users ?del example_storage) = example_storage"
    using side_effects_confined [of ?del example_users example_storage] by simp
  have 3: "snd (calendarHandler example_users ?bad example_storage) = example_storage"
    using side_effects_confined [of ?bad example_users example_storage] a by simp
  have 4: "os_Stat (snd (calendarHandler example_users ?put example_storage))
      (filePath_of ''/alice/work.ics'') = Inr (File ''X'')"
    using side_effects_confined [of ?put example_users example_storage "''X''" ?get] s
    by simp
  have 5: "calendarHandler example_users ?get
      (snd (calendarHandler example_users ?put example_storage)) =
     (served ''X'', snd (calendarHandler example_users ?put example_storage))"
    using side_effects_confined [of ?put example_users example_storage "''X''" ?get] s n u
    by simp
  from 1 2 a 3 s n u 4 5 show ?thesis by blast
qed

theorem get_after_put_dotdot:
  "filePath_of ''/alice/b/../x.ics'' = ''calendars/alice/x.ics'' \<and>
   calendarHandler example_users
      \<lparr>req_method = ''PUT'', url_path = ''/alice/b/../x.ics'',
       basic_auth = Some (''alice'', ''s3cr3t''), req_body = Inr ''X'',
       req_conditional = None\<rparr> example_storage =
     (\<lparr>status = 204, headers = Map.empty, resp_body = []\<rparr>,
      Dir [(''calendars'', Dir [(''alice'', Dir [(''x.ics'', File ''X'')])])]) \<and>
   status (fst (calendarHandler example_users
      \<lparr>req_method = ''GET'', url_path = ''/alice/b/../x.ics'', basic_auth = None,
       req_body = Inr [], req_conditional = None\<rparr>
      (Dir [(''calendars'', Dir [(''alice'', Dir [(''x.ics'', File ''X'')])])]))) = 400 \<and>
   resp_body (fst (calendarHandler example_users
      \<lparr>req_method = ''GET'', url_path = ''/alice/b/../x.ics'', basic_auth = None,
       req_body = Inr [], req_conditional = None\<rparr>
      (Dir [(''calendars'', Dir [(''alice'', Dir [(''x.ics'', File ''X'')])])]))) \<noteq> ''X''"
  by (simp add: eval_defs http_Error_def)

section \<open>Paths of one segment\<close>

lemma Split_two: "c \<in> set s \<Longrightarrow> 2 \<le> length (strings_Split s c)"
proof -
  assume "c \<in> set s"
  then obtain a b where "s = a @ c # b" by (auto dest: split_list)
  moreover have "1 \<le> length (strings_Split a c)" "1 \<le> length (strings_Split b c)"
    by (simp_all add: Suc_le_eq)
  ultimately show ?thesis by (simp add: Split_append_sep)
qed

lemma Trim_ics:
  assumes "strings_HasSuffix p ''.ics''"
  shows "strings_Trim p ''/'' = dropWhile (\<lambda>c. c = CHR ''/'') p"
    and "\<exists>t. strings_Trim p ''/'' = t @ ''.ics''"
proof -
  from assms obtain z where z: "p = z @ ''.ics''" by (auto simp: HasSuffix_iff)
  have "\<exists>t. dropWhile (\<lambda>c. c = CHR ''/'') p = t @ ''.ics''"
    unfolding z by (simp add: dropWhile_append)
  then obtain t where t: "dropWhile (\<lambda>c. c = CHR ''/'') p = t @ ''.ics''" by blast
  then have "strings_Trim p ''/'' = t @ ''.ics''" by (simp add: strings_Trim_def)
  with t show "strings_Trim p ''/'' = dropWhile (\<lambda>c. c = CHR ''/'') p"
    and "\<exists>t. strings_Trim p ''/'' = t @ ''.ics''" by auto
qed

lemma takeWhile_replicate:
  "takeWhile (\<lambda>c. c = a) xs = replicate (length (takeWhile (\<lambda>c. c = a) xs)) a"
  by (induction xs) auto

lemma Split_replicate:
  "strings_Split (replicate k c @ s) c = replicate k [] @ strings_Split s c"
  by (induction k) auto

lemma foldl_clean_empty: "foldl (clean_step r) st (replicate k []) = st"
  by (induction k) (auto simp: clean_step_def)

text \<open>
  A path that ends in \<^verbatim>\<open>.ics\<close> and has one segment is that segment after zero
  or more separators, and its file is a direct child of the storage root.
\<close>

lemma single_segment_file:
  assumes "strings_HasSuffix p ''.ics''"
    and "length (strings_Split (strings_Trim p ''/'') CHR ''/'') < 2"
  shows "real_elem (strings_Trim p ''/'')"
    and "filePath_of p = strings_Join [dataDir, strings_Trim p ''/'']"
proof -
  define seg where "seg = strings_Trim p ''/''"
  define k where "k = length (takeWhile (\<lambda>c. c = CHR ''/'') p)"
  have ns: "CHR ''/'' \<notin> set seg"
    using assms(2) Split_two [of "CHR ''/''" seg] by (auto simp: seg_def)
  from Trim_ics(2) [OF assms(1)] obtain t where t: "seg = t @ ''.ics''" by (auto simp: seg_def)
  with ns have re: "real_elem seg" by (simp add: real_elem_ics)
  then show "real_elem (strings_Trim p ''/'')" by (simp add: seg_def)
  have "p = takeWhile (\<lambda>c. c = CHR ''/'') p @ dropWhile (\<lambda>c. c = CHR ''/'') p" by simp
  then have p: "p = replicate k CHR ''/'' @ seg"
    using takeWhile_replicate [of "CHR ''/''" p] Trim_ics(1) [OF assms(1)]
    by (simp add: k_def seg_def)
  have sp: "strings_Split p CHR ''/'' = replicate k [] @ [seg]"
    by (subst p) (simp add: Split_replicate Split_nosep ns)
  have f: "foldl (clean_step r) [] (replicate k [] @ [seg]) = [seg]" for r
    using re by (simp add: foldl_clean_empty) (simp add: clean_step_def real_elem_def)
  have ce: "clean_elems p = [seg]"
    unfolding clean_elems_def sp f by simp
  from real_elem_hd [OF re] have hs: "seg \<noteq> []" "hd seg \<noteq> CHR ''/''" by auto
  have "filePath_of p = strings_Join [dataDir, seg]"
  proof (cases "hd p = CHR ''/''")
    case True
    from filePath_of_rooted [OF assms(1) True] show ?thesis by (simp add: ce)
  next
    case False
    have "k = 0"
    proof (rule ccontr)
      assume "k \<noteq> 0"
      then obtain j where "k = Suc j" by (cases k) auto
      with p have "hd p = CHR ''/''" by simp
      with False show False by simp
    qed
    with p have ps: "p = seg" by simp
    from hs have c: "filepath_Clean seg = seg"
      using ce by (simp add: filepath_Clean_def ps)
    let ?s = "dataDir @ CHR ''/'' # seg"
    have s2: "strings_Split ?s CHR ''/'' = [dataDir, seg]"
      unfolding Split_append_sep using ns dataDir_facts(3) by (simp add: Split_nosep)
    have "\<forall>e\<in>set [dataDir, seg]. real_elem e" using re dataDir_facts(4) by simp
    then have f2: "foldl (clean_step False) [] [dataDir, seg] = rev [dataDir, seg] @ []"
      by (rule foldl_clean_real)
    have "filepath_Clean ?s = strings_Join (rev (rev [dataDir, seg] @ []))"
    proof (rule Clean_relative)
      show "hd ?s \<noteq> CHR ''/''" using dataDir_facts(1,2) by simp
      show "foldl (clean_step False) [] (strings_Split ?s CHR ''/'') = rev [dataDir, seg] @ []"
        unfolding s2 by (rule f2)
      show "rev [dataDir, seg] @ [] \<noteq> []" by simp
      show "hd (rev (rev [dataDir, seg] @ [])) \<noteq> []" using dataDir_facts(1) by simp
    qed
    then show ?thesis
      using dataDir_facts(1) by (simp add: filePath_of_def filepath_Join_def ps c)
  qed
  then show "filePath_of p = strings_Join [dataDir, strings_Trim p ''/'']" by (simp add: seg_def)
qed

lemma file_part_child:
  assumes "CHR ''/'' \<notin> set e"
  shows "file_part (d @ ''/'' @ e) = e"
proof -
  have nl: "\<forall>c\<in>set (rev e). c \<noteq> CHR ''/''" using assms by auto
  have r: "rev (d @ ''/'' @ e) = rev e @ CHR ''/'' # rev d" by simp
  have t1: "takeWhile (\<lambda>c. c \<noteq> CHR ''/'') (rev e @ CHR ''/'' # rev d) =
      takeWhile (\<lambda>c. c \<noteq> CHR ''/'') (rev e)"
    by (rule takeWhile_tail) simp
  have t2: "takeWhile (\<lambda>c. c \<noteq> CHR ''/'') (rev e) = rev e"
    using nl by (simp only: takeWhile_eq_all_conv)
  show ?thesis
    unfolding file_part_def r t1 t2 by simp
qed

text \<open>
  Claim C8, as amended. For a path that ends in \<^verbatim>\<open>.ics\<close> and has fewer than
  two segments once its leading and trailing separators are trimmed, handlePutCalendar
  answers 400 and leaves the storage alone. The middleware runs first: through the router an
  authenticated \<^verbatim>\<open>PUT\<close> gets that 400, and one that is not authenticated gets
  401, not the 400 of the claim. handleGetCalendar has no check of the segments, and
  resolves the path like any other: its location is the entry of that name in the
  storage root itself, and a regular file there is served to a \<^verbatim>\<open>GET\<close> (under
  the conditions of every \<^verbatim>\<open>GET\<close>: no \<^verbatim>\<open>..\<close> element between
  slashes or backslashes, a name in valid UTF-8, no \<^verbatim>\<open>Range\<close> or conditional
  header), whoever stored it.
\<close>

theorem one_segment_put_rejected:
  assumes "strings_HasSuffix (url_path r) ''.ics''"
    and "length (strings_Split (strings_Trim (url_path r) ''/'') CHR ''/'') < 2"
  shows "handlePutCalendar c r fs =
           (http_Error Map.empty ''Invalid path format. Expected /{username}/{calendar}.ics'' 400,
            fs) \<and>
         (req_method r = ''PUT'' \<and> authenticated users r \<longrightarrow>
            calendarHandler users r fs =
              (http_Error Map.empty ''Invalid path format. Expected /{username}/{calendar}.ics'' 400,
               fs)) \<and>
         (req_method r = ''PUT'' \<and> \<not> authenticated users r \<longrightarrow>
            calendarHandler users r fs = (unauthorized, fs)) \<and>
         filePath_of (url_path r) = dataDir @ ''/'' @ strings_Trim (url_path r) ''/'' \<and>
         CHR ''/'' \<notin> set (strings_Trim (url_path r) ''/'') \<and>
         (req_method r = ''GET'' \<and> \<not> containsDotDot (url_path r) \<and>
          utf8_ValidString (strings_Trim (url_path r) ''/'') \<and> req_conditional r = None \<and>
          os_Stat fs (dataDir @ ''/'' @ strings_Trim (url_path r) ''/'') = Inr (File d) \<longrightarrow>
            calendarHandler users r fs = (served d, fs))"
proof -
  let ?bad = "(http_Error Map.empty ''Invalid path format. Expected /{username}/{calendar}.ics'' 400,
            fs)"
  let ?seg = "strings_Trim (url_path r) ''/''"
  have 1: "handlePutCalendar c r fs = ?bad" for c
    using assms by (simp add: handlePutCalendar_def)
  have 2: "calendarHandler users r fs = ?bad"
    if "req_method r = ''PUT'' \<and> authenticated users r"
  proof -
    from that obtain u p where "basic_auth r = Some (u, p)" "users u = Some p"
      by (auto simp: authenticated_def split: option.splits)
    with that show ?thesis by (simp add: calendarHandler_put 1)
  qed
  have 3: "calendarHandler users r fs = (unauthorized, fs)"
    if "req_method r = ''PUT'' \<and> \<not> authenticated users r"
    using that by (simp add: calendarHandler_def authMiddleware_reject)
  from single_segment_file [OF assms]
  have re: "real_elem ?seg" and fp: "filePath_of (url_path r) = dataDir @ ''/'' @ ?seg"
    by simp_all
  from re have 4: "CHR ''/'' \<notin> set ?seg" by (simp add: real_elem_def)
  have part: "file_part (dataDir @ ''/'' @ ?seg) = ?seg"
    using 4 by (rule file_part_child)
  have 5: "calendarHandler users r fs = (served d, fs)"
    if "req_method r = ''GET'' \<and> \<not> containsDotDot (url_path r) \<and>
          utf8_ValidString ?seg \<and> req_conditional r = None \<and>
          os_Stat fs (dataDir @ ''/'' @ ?seg) = Inr (File d)"
  proof -
    have "handleGetCalendar r fs = (served d, fs)"
      by (rule handleGet_file) (use that assms(1) in \<open>simp_all add: fp part [simplified]\<close>)
    with that show ?thesis by (simp add: calendarHandler_def)
  qed
  from 1 2 3 fp 4 5 show ?thesis by blast
qed

theorem one_segment_put_rejected_witness:
  "strings_HasSuffix ''/x.ics'' ''.ics'' \<and>
   length (strings_Split (strings_Trim ''/x.ics'' ''/'') CHR ''/'') < 2 \<and>
   authenticated example_users
     \<lparr>req_method = ''PUT'', url_path = ''/x.ics'', basic_auth = Some (''alice'', ''s3cr3t''),
      req_body = Inr ''X'', req_conditional = None\<rparr> \<and>
   calendarHandler example_users
     \<lparr>req_method = ''PUT'', url_path = ''/x.ics'', basic_auth = Some (''alice'', ''s3cr3t''),
      req_body = Inr ''X'', req_conditional = None\<rparr> example_storage =
     (http_Error Map.empty ''Invalid path format. Expected /{username}/{calendar}.ics'' 400,
      example_storage) \<and>
   \<not> authenticated example_users
     \<lparr>req_method = ''PUT'', url_path = ''/x.ics'', basic_auth = None,
      req_body = Inr ''X'', req_conditional = None\<rparr> \<and>
   calendarHandler example_users
     \<lparr>req_method = ''PUT'', url_path = ''/x.ics'', basic_auth = None,
      req_body = Inr ''X'', req_conditional = None\<rparr> example_storage =
     (unauthorized, example_storage) \<and>
   filePath_of ''/x.ics'' = ''calendars/x.ics'' \<and>
   \<not> containsDotDot ''/x.ics'' \<and> utf8_ValidString ''x.ics'' \<and>
   os_Stat (Dir [(''calendars'', Dir [(''x.ics'', File ''X'')])]) ''calendars/x.ics'' =
     Inr (File ''X'') \<and>
   calendarHandler example_users
     \<lparr>req_method = ''GET'', url_path = ''/x.ics'', basic_auth = None,
      req_body = Inr [], req_conditional = None\<rparr>
     (Dir [(''calendars'', Dir [(''x.ics'', File ''X'')])]) =
     (served ''X'', Dir [(''calendars'', Dir [(''x.ics'', File ''X'')])])"
proof -
  let ?put = "\<lparr>req_method = ''PUT'', url_path = ''/x.ics'',
      basic_auth = Some (''alice'', ''s3cr3t''), req_body = Inr ''X'', req_conditional = None\<rparr>"
  let ?anon = "\<lparr>req_method = ''PUT'', url_path = ''/x.ics'', basic_auth = None,
      req_body = Inr ''X'', req_conditional = None\<rparr>"
  let ?get = "\<lparr>req_method = ''GET'', url_path = ''/x.ics'', basic_auth = None,
      req_body = Inr [], req_conditional = None\<rparr>"
  let ?fs = "Dir [(''calendars'', Dir [(''x.ics'', File ''X'')])]"
  have t: "strings_Trim ''/x.ics'' ''/'' = ''x.ics''" by (simp add: strings_Trim_def)
  have 1: "strings_HasSuffix ''/x.ics'' ''.ics''" by (simp add: strings_HasSuffix_def)
  have 2: "length (strings_Split (strings_Trim ''/x.ics'' ''/'') CHR ''/'') < 2"
    by (simp add: t)
  have 3: "authenticated example_users ?put" by (simp add: authenticated_def example_users_def)
  have 4: "\<not> authenticated example_users ?anon" by (simp add: authenticated_def)
  have 5: "\<not> containsDotDot ''/x.ics''"
    by (simp add: containsDotDot_def strings_FieldsFunc_def isSlashRune_def)
  have 6: "utf8_ValidString ''x.ics''" by (simp add: utf8_ValidString_def)
  have 7: "os_Stat ?fs ''calendars/x.ics'' = Inr (File ''X'')"
    by (simp add: os_Stat_def name_error_def path_elems_def PATH_MAX_def NAME_MAX_def)
  have A: "calendarHandler example_users ?put example_storage =
     (http_Error Map.empty ''Invalid path format. Expected /{username}/{calendar}.ics'' 400,
      example_storage)"
    using one_segment_put_rejected [of ?put None example_storage example_users] 1 2 3
    by simp
  have B: "calendarHandler example_users ?anon example_storage = (unauthorized, example_storage)"
    using one_segment_put_rejected [of ?anon None example_storage example_users] 1 2 4
    by simp
  have C: "filePath_of ''/x.ics'' = ''calendars/x.ics''"
    using one_segment_put_rejected [of ?get None ?fs example_users] 1 2
    by (simp add: t dataDir_def)
  have D: "calendarHandler example_users ?get ?fs = (served ''X'', ?fs)"
    using one_segment_put_rejected [of ?get None ?fs example_users "''X''"] 1 2 5 6 7
    by (simp add: t dataDir_def)
  from 1 2 3 A 4 B C 5 6 7 D show ?thesis by blast
qed

theorem one_segment_not_rejected:
  "strings_HasSuffix ''/x.ics'' ''.ics'' \<and>
   length (strings_Split (strings_Trim ''/x.ics'' ''/'') CHR ''/'') < 2 \<and>
   status (fst (calendarHandler example_users
     \<lparr>req_method = ''PUT'', url_path = ''/x.ics'', basic_auth = None,
      req_body = Inr ''X'', req_conditional = None\<rparr> example_storage)) = 401 \<and>
   calendarHandler example_users
     \<lparr>req_method = ''PUT'', url_path = ''/alice/../x.ics'',
      basic_auth = Some (''alice'', ''s3cr3t''), req_body = Inr ''X'',
      req_conditional = None\<rparr> example_storage =
     (\<lparr>status = 204, headers = Map.empty, resp_body = []\<rparr>,
      Dir [(''calendars'', Dir [(''x.ics'', File ''X'')])]) \<and>
   calendarHandler example_users
     \<lparr>req_method = ''GET'', url_path = ''/x.ics'', basic_auth = None,
      req_body = Inr [], req_conditional = None\<rparr>
     (Dir [(''calendars'', Dir [(''x.ics'', File ''X'')])]) =
     (served ''X'', Dir [(''calendars'', Dir [(''x.ics'', File ''X'')])])"
  by (simp add: eval_defs served_def http_Error_def)

end
